theory Spec2Isabelle
  imports Main "HOL-Library.AList"
begin

section \<open>Strings, sets and records of the host language\<close>

text \<open>
  A JavaScript string is a \<open>string\<close> (a list of 8-bit characters). A \<open>Set<string>\<close> is a
  list without repetitions in insertion order, a \<open>Record<string, V>\<close> an association list
  in insertion order. Two things JavaScript does with the keys of an object are left out:
  keys inherited from \<open>Object.prototype\<close> (such as \<open>constructor\<close>), which \<open>in\<close> also
  finds, and keys that are array indices, which are listed before the others. The keys
  here are module ids and paths relative to the source directory.
\<close>

definition set_add :: "string \<Rightarrow> string list \<Rightarrow> string list" where
  "set_add x xs = (if x \<in> set xs then xs else xs @ [x])"

definition has_key :: "string \<Rightarrow> (string \<times> 'v) list \<Rightarrow> bool" where
  "has_key k m = (map_of m k \<noteq> None)"

definition endsWith :: "string \<Rightarrow> string \<Rightarrow> bool" where
  "endsWith s e = (length e \<le> length s \<and> drop (length s - length e) s = e)"

text \<open>
  \<open>name.replace(/\?.+$/, '')\<close>: the leftmost \<open>?\<close> that is followed, up to the end of the
  string, by at least one character and by no line terminator; it and what follows are
  removed. Of JavaScript's line terminators, LF and CR are 8-bit characters.
\<close>

definition line_terminator :: "char \<Rightarrow> bool" where
  "line_terminator c = (c = CHR 0x0A \<or> c = CHR 0x0D)"

fun strip_query :: "string \<Rightarrow> string" where
  "strip_query [] = []"
| "strip_query (c # cs) =
     (if c = CHR ''?'' \<and> cs \<noteq> [] \<and> \<not> list_ex line_terminator cs then []
      else c # strip_query cs)"

section \<open>The naming helper\<close>

text \<open>
  \<open>function filename (name) { return _filename(name.replace(/\?.+$/, '')) }\<close>, with
  \<open>_filename\<close> the function \<open>filename\<close> of the package \<open>pathe/utils\<close>, taken as the
  parameter \<open>F\<close>.
\<close>

definition filename :: "(string \<Rightarrow> string) \<Rightarrow> string \<Rightarrow> string" where
  "filename F name = F (strip_query name)"

text \<open>
  Modelled from the spec: the directory and the extension of a path, which section 4.1 of
  the specification names and the sources do not define. The last segment of a path is
  what follows its last \<open>/\<close> or backslash; the extension of a segment is its last \<open>.\<close> and
  what follows it, unless that \<open>.\<close> is the first character of the segment.
\<close>

definition path_separator :: "char \<Rightarrow> bool" where
  "path_separator c = (c = CHR ''/'' \<or> c = CHR 0x5C)"

definition last_segment :: "string \<Rightarrow> string" where
  "last_segment p = rev (takeWhile (\<lambda>c. \<not> path_separator c) (rev p))"

definition drop_extension :: "string \<Rightarrow> string" where
  "drop_extension b =
     (case b of
        [] \<Rightarrow> []
      | c # cs \<Rightarrow>
          if CHR ''.'' \<in> set cs
          then c # rev (tl (dropWhile (\<lambda>d. d \<noteq> CHR ''.'') (rev cs)))
          else b)"

text \<open>
  Modelled from the spec: \<open>filename\<close> of \<open>pathe/utils\<close> (imported as \<open>_filename\<close>) is not
  among the sources. Section 4.1 of the specification has the helper return "a
  filesystem-style base name", the identifier itself "if the path has no extension or
  directory": the last segment of the path without its extension.
\<close>

definition pathe_filename :: "string \<Rightarrow> string" where
  "pathe_filename p = drop_extension (last_segment p)"

section \<open>Components and islands\<close>

datatype component_mode = ModeClient | ModeServer | ModeAll

text \<open>The fields of a \<open>Component\<close> that the plugin reads; an absent \<open>island\<close> is false.\<close>

record component =
  filePath :: string
  pascalName :: string
  mode :: "component_mode option"
  island :: bool

text \<open>
  \<open>options.components.filter(component => component.island || (component.mode === 'server'
  && !options.components.some(c => c.pascalName === component.pascalName && c.mode === 'client')))\<close>
\<close>

definition islands_of :: "component list \<Rightarrow> component list" where
  "islands_of cs =
     filter (\<lambda>component. island component \<or>
        (mode component = Some ModeServer \<and>
         \<not> list_ex (\<lambda>c. pascalName c = pascalName component \<and> mode c = Some ModeClient) cs))
       cs"

section \<open>Options, host and plugin state\<close>

datatype build_mode = ServerBuild | ClientBuild

text \<open>
  \<open>shouldInline?: ((id?: string) => boolean) | boolean\<close>: left undefined, a boolean, or a
  predicate over an id that may be undefined.
\<close>

datatype should_inline = Undefined | Flag bool | Predicate "string option \<Rightarrow> bool"

text \<open>
  The fields of \<open>SSRStylesPluginOptions\<close> that are never written; \<open>build\<close> is its field
  \<open>mode\<close>. The two shared mutable containers \<open>clientCSSMap\<close> and \<open>chunksWithInlinedCSS\<close>
  are part of the state below.
\<close>

record options =
  srcDir :: string
  shouldInline :: should_inline
  components :: "component list"
  entry :: string
  globalCSS :: "string list"
  build :: build_mode

text \<open>A value of a parsed query: a string or an array of strings.\<close>

datatype query_value = QString string | QArray "string list"

fun truthy :: "query_value option \<Rightarrow> bool" where
  "truthy None = False"
| "truthy (Some (QString s)) = (s \<noteq> [])"
| "truthy (Some (QArray xs)) = True"

datatype side_effects = SideEffects bool | NoTreeshake | SideEffectsNull

text \<open>
  What \<open>this.resolve\<close> answers when it is not \<open>null\<close>: \<open>rid\<close> is its \<open>id\<close>; the fields the
  plugin neither reads nor writes are left out.
\<close>

record resolved =
  rid :: string
  moduleSideEffects :: side_effects

text \<open>A reference returned by \<open>this.emitFile\<close>: the position of the request in the log.\<close>

type_synonym ref = nat

text \<open>
  The functions of the bundler and of the imported packages, as parameters:
  \<open>resolve spec importer\<close> is \<open>this.resolve(spec, importer)\<close> (\<open>None\<close> for \<open>null\<close>),
  \<open>resolveSkipSelf\<close> the same request with \<open>skipSelf: true\<close>, \<open>parseId\<close> gives
  \<open>pathname\<close> and \<open>search\<close> of \<open>parseURL(decodeURIComponent(pathToFileURL(id).href))\<close>,
  \<open>findStaticImports\<close> the specifiers of the static imports of a source text in order,
  \<open>isCSS\<close> and \<open>isVue\<close> the predicates imported from \<open>../utils\<close>, \<open>relative\<close> and
  \<open>dirname\<close> those of \<open>pathe\<close>, and \<open>baseFileName\<close> the \<open>_filename\<close> of the naming helper
  (its result as a template string prints it).
\<close>

record host =
  resolve :: "string \<Rightarrow> string option \<Rightarrow> resolved option"
  resolveSkipSelf :: "string \<Rightarrow> string option \<Rightarrow> resolved option"
  relative :: "string \<Rightarrow> string \<Rightarrow> string"
  dirname :: "string \<Rightarrow> string"
  isCSS :: "string \<Rightarrow> bool"
  isVue :: "string \<Rightarrow> bool"
  parseId :: "string \<Rightarrow> string \<times> string"
  parseQuery :: "string \<Rightarrow> string \<Rightarrow> query_value option"
  findStaticImports :: "string \<Rightarrow> string list"
  getFileName :: "ref \<Rightarrow> string"
  baseFileName :: "string \<Rightarrow> string"

text \<open>
  The requests made to \<open>this.emitFile\<close>. \<open>StyleChunk base n id\<close> is the chunk named
  \<open>${base}-styles-${n}.mjs\<close> and built from the module \<open>id\<close>; \<open>Aggregate fileName paths\<close>
  is the asset named \<open>${fileName}-styles.mjs\<close> that imports the listed paths as \<open>style_0\<close>,
  \<open>style_1\<close>, ... and exports them in that order; \<open>DirectoryModule entries\<close> is the asset
  \<open>styles.mjs\<close> that maps each key to a loader importing the listed path.
\<close>

datatype emitted_file =
    StyleChunk string nat string
  | Aggregate string "string list"
  | DirectoryModule "(string \<times> string) list"

record style_record =
  files :: "ref list"
  inBundle :: "bool option"

text \<open>
  The closure variables of \<open>SSRStylesPlugin\<close> (\<open>cssMap\<close>, \<open>idRefMap\<close>, \<open>warnCache\<close>,
  \<open>islands\<close>), the two shared containers of the options, and what the bundler has been
  asked: the files to emit and the warnings. A warning is logged as the identifier it is
  cached under in \<open>warnCache\<close> and the name printed in its message.
\<close>

record plugin_state =
  cssMap :: "(string \<times> style_record) list"
  idRefMap :: "(string \<times> ref) list"
  warnCache :: "string list"
  islands :: "component list"
  clientCSSMap :: "(string \<times> string list) list"
  chunksWithInlinedCSS :: "string list"
  emittedFiles :: "emitted_file list"
  warnings :: "(string \<times> string) list"

definition SSRStylesPlugin :: "options \<Rightarrow> (string \<times> string list) list \<Rightarrow> string list \<Rightarrow> plugin_state" where
  "SSRStylesPlugin opts graph inlined =
     \<lparr> cssMap = [], idRefMap = [], warnCache = [], islands = islands_of (components opts),
       clientCSSMap = graph, chunksWithInlinedCSS = inlined, emittedFiles = [], warnings = [] \<rparr>"

definition relativeToSrcDir :: "host \<Rightarrow> options \<Rightarrow> string \<Rightarrow> string" where
  "relativeToSrcDir h opts path = relative h (srcDir opts) path"

definition emitFile :: "emitted_file \<Rightarrow> plugin_state \<Rightarrow> ref \<times> plugin_state" where
  "emitFile f s = (length (emittedFiles s), s\<lparr>emittedFiles := emittedFiles s @ [f]\<rparr>)"

text \<open>\<open>if (!warnCache.has(key)) { warnCache.add(key); this.warn(... shown ...) }\<close>\<close>

definition warn_once :: "string \<Rightarrow> string \<Rightarrow> plugin_state \<Rightarrow> plugin_state" where
  "warn_once key shown s =
     (if key \<in> set (warnCache s) then s
      else s\<lparr>warnCache := warnCache s @ [key], warnings := warnings s @ [(key, shown)]\<rparr>)"

text \<open>\<open>m[k] ||= new Set()\<close> and \<open>(m[k] ||= new Set()).add(x)\<close>\<close>

definition ensure_set :: "string \<Rightarrow> (string \<times> string list) list \<Rightarrow> (string \<times> string list) list" where
  "ensure_set k m = (if has_key k m then m else m @ [(k, [])])"

definition graph_add :: "string \<Rightarrow> string \<Rightarrow> (string \<times> string list) list \<Rightarrow> (string \<times> string list) list" where
  "graph_add k x m = AList.map_entry k (set_add x) (ensure_set k m)"

text \<open>\<open>await this.resolve(spec) ?? await this.resolve(spec, id)\<close>\<close>

definition resolve_either :: "host \<Rightarrow> string \<Rightarrow> string \<Rightarrow> resolved option" where
  "resolve_either h spec modId =
     (case resolve h spec None of Some r \<Rightarrow> Some r | None \<Rightarrow> resolve h spec (Some modId))"

text \<open>
  \<open>options.shouldInline === false || (typeof options.shouldInline === 'function' &&
  !options.shouldInline(x))\<close>
\<close>

fun inlining_refused :: "should_inline \<Rightarrow> string option \<Rightarrow> bool" where
  "inlining_refused Undefined x = False"
| "inlining_refused (Flag b) x = (\<not> b)"
| "inlining_refused (Predicate p) x = (\<not> p x)"

text \<open>
  \<open>options.shouldInline === true || (typeof options.shouldInline === 'function' &&
  options.shouldInline(x))\<close>
\<close>

fun inlining_requested :: "should_inline \<Rightarrow> string option \<Rightarrow> bool" where
  "inlining_requested Undefined x = False"
| "inlining_requested (Flag b) x = b"
| "inlining_requested (Predicate p) x = p x"

section \<open>The resolveId hook\<close>

definition resolveId :: "host \<Rightarrow> options \<Rightarrow> string \<Rightarrow> string option \<Rightarrow> resolved option" where
  "resolveId h opts modId importer =
     (if inlining_refused (shouldInline opts) importer then None
      else if modId = ''#build/css'' \<or> endsWith modId ''.vue'' \<or> isCSS h modId then
        (case resolveSkipSelf h modId importer of
           Some res \<Rightarrow> Some (res\<lparr>moduleSideEffects := SideEffects False\<rparr>)
         | None \<Rightarrow> None)
      else None)"

section \<open>The generateBundle hook\<close>

text \<open>
  \<open>outputOptions.assetFileNames\<close>: a string, or a function of the description of the
  asset, which the hook builds from \<open>fileName\<close> alone (\<open>${fileName}-styles.mjs\<close> as its name
  and original file name, an empty source); the function is given \<open>fileName\<close>.
\<close>

datatype asset_file_names = AssetNamePattern string | AssetNameFunction "string \<Rightarrow> string"

text \<open>
  The asset emitted for one record of \<open>cssMap\<close>: the aggregate of its files, each imported
  by the path of its chunk relative to the directory the aggregate is written to.
\<close>

definition aggregate_module :: "host \<Rightarrow> asset_file_names \<Rightarrow> string \<Rightarrow> ref list \<Rightarrow> emitted_file" where
  "aggregate_module h afn file fs =
     (let fileName = filename (baseFileName h) file;
          base = (case afn of AssetNamePattern p \<Rightarrow> p | AssetNameFunction f \<Rightarrow> f fileName);
          baseDir = dirname h base
      in Aggregate fileName (map (\<lambda>css. relative h baseDir (getFileName h css)) fs))"

text \<open>
  The loop over \<open>Object.entries(cssMap)\<close>, filling the local record \<open>emitted\<close>.
\<close>

fun emit_aggregates ::
  "host \<Rightarrow> asset_file_names \<Rightarrow> (string \<times> style_record) list \<Rightarrow>
   (string \<times> ref) list \<times> plugin_state \<Rightarrow> (string \<times> ref) list \<times> plugin_state" where
  "emit_aggregates h afn [] (emitted, s) = (emitted, s)"
| "emit_aggregates h afn ((file, r) # rest) (emitted, s) =
     (if files r = [] \<or> inBundle r \<noteq> Some True then emit_aggregates h afn rest (emitted, s)
      else
        let (ref, s') = emitFile (aggregate_module h afn file (files r)) s
        in emit_aggregates h afn rest (AList.update file ref emitted, s'))"

definition generateBundle :: "host \<Rightarrow> options \<Rightarrow> asset_file_names \<Rightarrow> plugin_state \<Rightarrow> plugin_state" where
  "generateBundle h opts afn s =
     (if build opts = ClientBuild then s
      else
        let (emitted, s1) = emit_aggregates h afn (cssMap s) ([], s);
            s2 = s1\<lparr>chunksWithInlinedCSS := fold set_add (map fst emitted) (chunksWithInlinedCSS s1)\<rparr>
        in snd (emitFile (DirectoryModule (map (\<lambda>(key, v). (key, getFileName h v)) emitted)) s2))"

section \<open>The renderChunk hook\<close>

record chunk =
  facadeModuleId :: "string option"
  moduleIds :: "string list"

text \<open>
  The body of the loop over the module ids of a chunk. In the client pass the test
  \<open>isEntry && chunk.facadeModuleId\<close> asks for a facade id that is not the empty string.
\<close>

definition render_module :: "host \<Rightarrow> options \<Rightarrow> chunk \<Rightarrow> bool \<Rightarrow> string \<Rightarrow> plugin_state \<Rightarrow> plugin_state" where
  "render_module h opts ch isEntry moduleId s =
     (if build opts = ClientBuild then
        let g0 = ensure_set moduleId (clientCSSMap s) in
        if isCSS h moduleId then
          let g1 = (if isVue h moduleId
                    then graph_add (strip_query moduleId) moduleId
                           (AList.map_entry moduleId (set_add moduleId) g0)
                    else g0);
              g2 = (case facadeModuleId ch of
                      Some f \<Rightarrow> if isEntry \<and> f \<noteq> [] then graph_add f moduleId g1 else g1
                    | None \<Rightarrow> g1)
          in s\<lparr>clientCSSMap := g2\<rparr>
        else s\<lparr>clientCSSMap := g0\<rparr>
      else
        let relativePath = relativeToSrcDir h opts moduleId in
        if has_key relativePath (cssMap s) then
          s\<lparr>cssMap := AList.map_entry relativePath
                (\<lambda>r. r\<lparr>inBundle :=
                   (case inBundle r of
                      Some b \<Rightarrow> Some b
                    | None \<Rightarrow> Some ((isVue h moduleId \<and> relativeToSrcDir h opts moduleId \<noteq> []) \<or> isEntry))\<rparr>)
                (cssMap s)\<rparr>
        else s)"

text \<open>\<open>[chunk.facadeModuleId, ...chunk.moduleIds].filter(Boolean)\<close>\<close>

definition observed_ids :: "chunk \<Rightarrow> string list" where
  "observed_ids ch =
     filter (\<lambda>m. m \<noteq> []) ((case facadeModuleId ch of None \<Rightarrow> [] | Some f \<Rightarrow> [f]) @ moduleIds ch)"

definition renderChunk :: "host \<Rightarrow> options \<Rightarrow> chunk \<Rightarrow> plugin_state \<Rightarrow> plugin_state" where
  "renderChunk h opts ch s =
     (let isEntry = (facadeModuleId ch = Some (entry opts));
          s0 = (if isEntry then s\<lparr>clientCSSMap := ensure_set (entry opts) (clientCSSMap s)\<rparr> else s)
      in fold (render_module h opts ch isEntry) (observed_ids ch) s0)"

section \<open>The transform hook\<close>

text \<open>\<open>SUPPORTED_FILES_RE = /\.(?:vue|(?:[cm]?j|t)sx?)$/\<close>, tested on a pathname.\<close>

definition SUPPORTED_FILES_RE :: "string \<Rightarrow> bool" where
  "SUPPORTED_FILES_RE p =
     list_ex (endsWith p)
       [''.vue'', ''.js'', ''.jsx'', ''.cjs'', ''.cjsx'', ''.mjs'', ''.mjsx'', ''.ts'', ''.tsx'']"

text \<open>\<open>idRefMap[relativeToSrcDir(file)] = ref; idMap.files.push(ref)\<close>\<close>

definition record_style :: "host \<Rightarrow> options \<Rightarrow> string \<Rightarrow> string \<Rightarrow> ref \<Rightarrow> plugin_state \<Rightarrow> plugin_state" where
  "record_style h opts relativeId file ref s =
     s\<lparr>idRefMap := AList.update (relativeToSrcDir h opts file) ref (idRefMap s),
       cssMap := AList.map_entry relativeId (\<lambda>r. r\<lparr>files := files r @ [ref]\<rparr>) (cssMap s)\<rparr>"

text \<open>
  The loop over the files the graph holds for the module. \<open>emittedIds\<close> is the set the
  source creates before the loop; \<open>styleCtr\<close> is threaded with the state.
\<close>

fun graph_styles ::
  "host \<Rightarrow> options \<Rightarrow> string \<Rightarrow> string \<Rightarrow> string list \<Rightarrow> string list \<Rightarrow>
   nat \<times> plugin_state \<Rightarrow> nat \<times> plugin_state" where
  "graph_styles h opts modId relativeId emittedIds [] (styleCtr, s) = (styleCtr, s)"
| "graph_styles h opts modId relativeId emittedIds (file # rest) (styleCtr, s) =
     (if resolve_either h file modId = None \<or>
         resolve_either h (file @ ''?inline&used'') modId = None
      then graph_styles h opts modId relativeId emittedIds rest (styleCtr, warn_once file file s)
      else if file \<in> set emittedIds
      then graph_styles h opts modId relativeId emittedIds rest (styleCtr, s)
      else
        let (ref, s1) = emitFile (StyleChunk (filename (baseFileName h) modId) (styleCtr + 1)
                                    (file @ ''?inline&used'')) s
        in graph_styles h opts modId relativeId emittedIds rest
             (styleCtr + 1, record_style h opts relativeId file ref s1))"

text \<open>The loop over the static imports of the module's code.\<close>

fun import_styles ::
  "host \<Rightarrow> options \<Rightarrow> string \<Rightarrow> string \<Rightarrow> string list \<Rightarrow> string list \<Rightarrow>
   nat \<times> plugin_state \<Rightarrow> nat \<times> plugin_state" where
  "import_styles h opts modId relativeId emittedIds [] (styleCtr, s) = (styleCtr, s)"
| "import_styles h opts modId relativeId emittedIds (specifier # rest) (styleCtr, s) =
     (if parseQuery h specifier ''type'' \<noteq> Some (QString ''style'') \<and> \<not> endsWith specifier ''.css''
      then import_styles h opts modId relativeId emittedIds rest (styleCtr, s)
      else
        case resolve h specifier (Some modId) of
          None \<Rightarrow> import_styles h opts modId relativeId emittedIds rest (styleCtr, s)
        | Some resolved \<Rightarrow>
            if resolve h (rid resolved @ ''?inline&used'') None = None
            then import_styles h opts modId relativeId emittedIds rest
                   (styleCtr, warn_once (rid resolved) specifier s)
            else if rid resolved \<in> set emittedIds
            then import_styles h opts modId relativeId emittedIds rest (styleCtr, s)
            else
              let (ref, s1) = emitFile (StyleChunk (filename (baseFileName h) modId) (styleCtr + 1)
                                          (rid resolved @ ''?inline&used'')) s
              in import_styles h opts modId relativeId emittedIds rest
                   (styleCtr + 1, record_style h opts relativeId (rid resolved) ref s1))"

text \<open>
  The loop of the client pass over \<open>options.globalCSS\<close>; the first component collects the
  files whose import is prepended to the code, the last prepended first.
\<close>

fun global_styles ::
  "host \<Rightarrow> string \<Rightarrow> string list \<Rightarrow> string list \<times> plugin_state \<Rightarrow> string list \<times> plugin_state" where
  "global_styles h modId [] (prepended, s) = (prepended, s)"
| "global_styles h modId (file # rest) (prepended, s) =
     (case (resolve_either h file modId, resolve_either h (file @ ''?inline&used'') modId) of
        (Some resolved, Some res) \<Rightarrow>
          global_styles h modId rest
            (prepended, s\<lparr>clientCSSMap := AList.map_entry modId (set_add (rid resolved)) (clientCSSMap s)\<rparr>)
      | _ \<Rightarrow> global_styles h modId rest (file # prepended, warn_once file file s))"

text \<open>
  The client pass of the hook. It returns new code when an import was prepended: \<open>Some\<close>
  of the prepended files, \<open>None\<close> for \<open>undefined\<close>.
\<close>

definition transform_client ::
  "host \<Rightarrow> options \<Rightarrow> string \<Rightarrow> string \<Rightarrow> plugin_state \<Rightarrow> string list option \<times> plugin_state" where
  "transform_client h opts code modId s =
     (if modId = entry opts \<and> inlining_requested (shouldInline opts) (Some modId) then
        let s0 = s\<lparr>clientCSSMap := ensure_set modId (clientCSSMap s)\<rparr> in
        if globalCSS opts = [] then (None, s0)
        else
          let (prepended, s1) = global_styles h modId (globalCSS opts) ([], s0)
          in (if prepended \<noteq> [] then Some prepended else None, s1)
      else (None, s))"

text \<open>
  The server pass once its guards are passed: from \<open>const relativeId = ...\<close> to the end of
  the hook.
\<close>

definition inline_styles ::
  "host \<Rightarrow> options \<Rightarrow> string \<Rightarrow> string \<Rightarrow> string \<Rightarrow> plugin_state \<Rightarrow> plugin_state" where
  "inline_styles h opts code modId pathname s =
     (let relativeId = relativeToSrcDir h opts modId;
          s0 = s\<lparr>cssMap := (if has_key relativeId (cssMap s) then cssMap s
                            else cssMap s @ [(relativeId, \<lparr>files = [], inBundle = None\<rparr>)])\<rparr>;
          emittedIds = [];
          ids = (case map_of (clientCSSMap s0) modId of Some fs \<Rightarrow> fs | None \<Rightarrow> []);
          (styleCtr, s1) = graph_styles h opts modId relativeId emittedIds ids (0, s0)
      in
      if \<not> SUPPORTED_FILES_RE pathname then s1
      else snd (import_styles h opts modId relativeId emittedIds
                  (findStaticImports h code) (styleCtr, s1)))"

text \<open>The server pass of the hook; it never returns new code.\<close>

definition transform_server :: "host \<Rightarrow> options \<Rightarrow> string \<Rightarrow> string \<Rightarrow> plugin_state \<Rightarrow> plugin_state" where
  "transform_server h opts code modId s =
     (let (pathname, search) = parseId h modId;
          isIsland = list_ex (\<lambda>c. filePath c = pathname) (islands s)
      in
      if \<not> has_key modId (clientCSSMap s) \<and> \<not> isIsland then s
      else if truthy (parseQuery h search ''macro'') \<or> truthy (parseQuery h search ''nuxt_component'')
      then s
      else if \<not> isIsland \<and> inlining_refused (shouldInline opts) (Some modId) then s
      else inline_styles h opts code modId pathname s)"

definition transform ::
  "host \<Rightarrow> options \<Rightarrow> string \<Rightarrow> string \<Rightarrow> plugin_state \<Rightarrow> string list option \<times> plugin_state" where
  "transform h opts code modId s =
     (if build opts = ClientBuild then transform_client h opts code modId s
      else (None, transform_server h opts code modId s))"

section \<open>A build as a sequence of hook calls\<close>

text \<open>
  The bundler calls the hooks of one plugin instance one after the other; between two
  calls the owner of the options may replace the shared containers. Each call is taken as
  a whole. The hooks are asynchronous and wait for the resolver, but no wait stands between
  a test of \<open>warnCache\<close> and the update that follows it, nor between the emission of a
  chunk and its recording.
\<close>

datatype event =
    Transform string string
  | RenderChunk chunk
  | GenerateBundle asset_file_names
  | Shared "(string \<times> string list) list" "string list"

fun step :: "host \<Rightarrow> options \<Rightarrow> event \<Rightarrow> plugin_state \<Rightarrow> plugin_state" where
  "step h opts (Transform code modId) s = snd (transform h opts code modId s)"
| "step h opts (RenderChunk ch) s = renderChunk h opts ch s"
| "step h opts (GenerateBundle afn) s = generateBundle h opts afn s"
| "step h opts (Shared graph inlined) s = s\<lparr>clientCSSMap := graph, chunksWithInlinedCSS := inlined\<rparr>"

definition run :: "host \<Rightarrow> options \<Rightarrow> event list \<Rightarrow> plugin_state \<Rightarrow> plugin_state" where
  "run h opts evs s = fold (step h opts) evs s"

section \<open>An example build\<close>

text \<open>
  A small host and a small project, on which the statements below are evaluated: the
  source directory \<open>/src\<close>, style sheets \<open>a.css\<close> and \<open>b.css\<close> that resolve in both
  variants, \<open>missing.css\<close> that does not, a server component \<open>Foo\<close> without client
  counterpart and a component \<open>Bar\<close> with both.
\<close>

definition example_relative :: "string \<Rightarrow> string \<Rightarrow> string" where
  "example_relative base path =
     (if take (length base + 1) path = base @ ''/'' then drop (length base + 1) path else path)"

definition example_dirname :: "string \<Rightarrow> string" where
  "example_dirname p =
     (let d = dropWhile (\<lambda>c. c \<noteq> CHR ''/'') (rev p) in if d = [] then ''.'' else rev (tl d))"

definition example_resolve :: "string \<Rightarrow> string option \<Rightarrow> resolved option" where
  "example_resolve specifier importer =
     (if specifier \<in> set [''/src/a.css'', ''/src/a.css?inline&used'',
                            ''/src/b.css'', ''/src/b.css?inline&used'', ''/src/Foo.vue'']
      then Some \<lparr>rid = specifier, moduleSideEffects = SideEffects True\<rparr>
      else if specifier = ''./a.css'' \<and> importer \<noteq> None
      then Some \<lparr>rid = ''/src/a.css'', moduleSideEffects = SideEffects True\<rparr>
      else None)"

definition example_parseId :: "string \<Rightarrow> string \<times> string" where
  "example_parseId m = (takeWhile (\<lambda>c. c \<noteq> CHR ''?'') m, dropWhile (\<lambda>c. c \<noteq> CHR ''?'') m)"

definition example_parseQuery :: "string \<Rightarrow> string \<Rightarrow> query_value option" where
  "example_parseQuery search key =
     (if search = ''?macro=true'' \<and> key = ''macro'' then Some (QString ''true'') else None)"

definition example_imports :: "string \<Rightarrow> string list" where
  "example_imports code =
     (if code = ''import ./a.css'' then [''./a.css'']
      else if code = ''import ./a.css; import ./a.css'' then [''./a.css'', ''./a.css'']
      else [])"

definition example_host :: host where
  "example_host =
     \<lparr> resolve = example_resolve, resolveSkipSelf = example_resolve,
       relative = example_relative, dirname = example_dirname,
       isCSS = (\<lambda>m. endsWith m ''.css''),
       isVue = (\<lambda>m. endsWith (fst (example_parseId m)) ''.vue''),
       parseId = example_parseId, parseQuery = example_parseQuery,
       findStaticImports = example_imports,
       getFileName = (\<lambda>r. ''_nuxt/'' @ replicate (Suc r) (CHR ''s'') @ ''.mjs''),
       baseFileName = pathe_filename \<rparr>"

definition example_components :: "component list" where
  "example_components =
     [\<lparr>filePath = ''/src/Foo.vue'', pascalName = ''Foo'', mode = Some ModeServer, island = False\<rparr>,
      \<lparr>filePath = ''/src/Bar.server.vue'', pascalName = ''Bar'', mode = Some ModeServer, island = False\<rparr>,
      \<lparr>filePath = ''/src/Bar.client.vue'', pascalName = ''Bar'', mode = Some ModeClient, island = False\<rparr>]"

definition example_options :: "build_mode \<Rightarrow> should_inline \<Rightarrow> options" where
  "example_options b i =
     \<lparr> srcDir = ''/src'', shouldInline = i, components = example_components,
       entry = ''/src/entry.js'', globalCSS = [''/src/a.css'', ''/src/missing.css''], build = b \<rparr>"

definition example_graph :: "(string \<times> string list) list" where
  "example_graph =
     [(''/src/a.vue'', [''/src/a.css'', ''/src/missing.css'']),
      (''/src/b.vue'', [''/src/missing.css'', ''/src/b.css'']),
      (''/src/Foo.vue'', [''/src/a.css'']),
      (''/src/Foo.vue?macro=true'', [''/src/a.css''])]"

text \<open>
  A server pass over two modules of the graph: \<open>a.vue\<close>, whose style sheet resolves, and
  \<open>c.vue\<close>, whose only style sheet does not; both are then rendered into one chunk.
\<close>

definition example_rendered :: plugin_state where
  "example_rendered =
     run example_host (example_options ServerBuild (Flag True))
       [Transform [] ''/src/a.vue'', Transform [] ''/src/c.vue'',
        RenderChunk \<lparr>facadeModuleId = None, moduleIds = [''/src/a.vue'', ''/src/c.vue'']\<rparr>]
       (SSRStylesPlugin (example_options ServerBuild (Flag True))
          [(''/src/a.vue'', [''/src/a.css'']), (''/src/c.vue'', [''/src/missing.css''])] [])"

text \<open>
  The invariant behind the warn-once cache: every identifier warned about is in
  \<open>warnCache\<close>, and no identifier was warned about twice.
\<close>

definition warned_once :: "plugin_state \<Rightarrow> bool" where
  "warned_once s =
     (set (map fst (warnings s)) \<subseteq> set (warnCache s) \<and> distinct (map fst (warnings s)))"

text \<open>
  A file \<open>x\<close> is inlined for the record stored under \<open>relativeId\<close> when that record lists
  a reference under which \<open>x\<close> was emitted.
\<close>

definition style_inlined :: "plugin_state \<Rightarrow> string \<Rightarrow> emitted_file \<Rightarrow> bool" where
  "style_inlined s relativeId x =
     (case map_of (cssMap s) relativeId of
        None \<Rightarrow> False
      | Some r \<Rightarrow> list_ex (\<lambda>ref. ref < length (emittedFiles s) \<and> emittedFiles s ! ref = x) (files r))"

text \<open>
  What the identifier of a logged warning is: the name the message prints, or an id that
  some importer resolves that name to.
\<close>

definition warned_for :: "host \<Rightarrow> plugin_state \<Rightarrow> bool" where
  "warned_for h s =
     (\<forall>w\<in>set (warnings s).
        fst w = snd w \<or> (\<exists>importer r. resolve h (snd w) (Some importer) = Some r \<and> rid r = fst w))"

text \<open>
  A host whose resolver knows one style sheet under two ids: the id \<open>/src/m.css\<close> resolves
  to \<open>/real/m.css\<close>, and neither has an inline variant.
\<close>

definition alias_resolve :: "string \<Rightarrow> string option \<Rightarrow> resolved option" where
  "alias_resolve specifier importer =
     (if specifier = ''/src/m.css''
      then Some \<lparr>rid = ''/real/m.css'', moduleSideEffects = SideEffects True\<rparr>
      else None)"

definition alias_host :: host where
  "alias_host =
     example_host
       \<lparr> resolve := alias_resolve,
         findStaticImports := (\<lambda>code. if code = ''import /src/m.css'' then [''/src/m.css''] else []) \<rparr>"

text \<open>
  What the server pass sees while rendering a list of chunks: every observed module id, in
  order, with whether its chunk is the entry chunk; and what one such observation does to
  the style record stored under the key \<open>k\<close>, if there is one.
\<close>

definition observations :: "options \<Rightarrow> chunk list \<Rightarrow> (string \<times> bool) list" where
  "observations opts chs =
     concat (map (\<lambda>ch. map (\<lambda>m. (m, facadeModuleId ch = Some (entry opts))) (observed_ids ch)) chs)"

definition observe ::
  "host \<Rightarrow> options \<Rightarrow> string \<Rightarrow> string \<times> bool \<Rightarrow> style_record option \<Rightarrow> style_record option" where
  "observe h opts k me ro =
     (if relativeToSrcDir h opts (fst me) = k
      then map_option (\<lambda>r. r\<lparr>inBundle :=
             (case inBundle r of
                Some b \<Rightarrow> Some b
              | None \<Rightarrow> Some ((isVue h (fst me) \<and> relativeToSrcDir h opts (fst me) \<noteq> []) \<or> snd me))\<rparr>) ro
      else ro)"

text \<open>
  The records of \<open>cssMap\<close> that have files and are in the bundle, and the mapping of the
  directory module that was emitted last.
\<close>

definition inlined_records :: "plugin_state \<Rightarrow> (string \<times> style_record) list" where
  "inlined_records s = filter (\<lambda>(k, r). files r \<noteq> [] \<and> inBundle r = Some True) (cssMap s)"

definition emitted_directory :: "plugin_state \<Rightarrow> (string \<times> string) list" where
  "emitted_directory s = (case rev (emittedFiles s) of DirectoryModule d # _ \<Rightarrow> d | _ \<Rightarrow> [])"

section \<open>The naming helper: query suffix, unchanged names, repeated application\<close>

lemma strip_query_without_mark: "CHR ''?'' \<notin> set x \<Longrightarrow> strip_query x = x"
  by (induction x) auto

lemma strip_query_suffix:
  "CHR ''?'' \<notin> set p \<Longrightarrow> q \<noteq> [] \<Longrightarrow> \<not> list_ex line_terminator q \<Longrightarrow> strip_query (p @ CHR ''?'' # q) = p"
  by (induction p) auto

lemma last_segment_separators: "c \<in> set (last_segment p) \<Longrightarrow> \<not> path_separator c"
  unfolding last_segment_def by (auto dest: set_takeWhileD)

lemma last_segment_same: "\<forall>c\<in>set x. \<not> path_separator c \<Longrightarrow> last_segment x = x"
  unfolding last_segment_def by (simp add: takeWhile_eq_all_conv[THEN iffD2])

lemma in_set_tl: "c \<in> set (tl x) \<Longrightarrow> c \<in> set x"
  by (cases x) auto

lemma set_drop_extension: "set (drop_extension b) \<subseteq> set b"
proof (cases b)
  case Nil
  then show ?thesis by (simp add: drop_extension_def)
next
  case (Cons c cs)
  have "set (tl (dropWhile (\<lambda>d. d \<noteq> CHR ''.'') (rev cs))) \<subseteq> set (rev cs)"
  proof
    fix e assume "e \<in> set (tl (dropWhile (\<lambda>d. d \<noteq> CHR ''.'') (rev cs)))"
    then have "e \<in> set (dropWhile (\<lambda>d. d \<noteq> CHR ''.'') (rev cs))"
      by (rule in_set_tl)
    then show "e \<in> set (rev cs)" by (rule set_dropWhileD)
  qed
  with Cons show ?thesis by (auto simp: drop_extension_def)
qed

lemma drop_extension_same: "CHR ''.'' \<notin> set (tl b) \<Longrightarrow> drop_extension b = b"
  by (cases b) (simp_all add: drop_extension_def)

lemma pathe_filename_separators: "c \<in> set (pathe_filename p) \<Longrightarrow> \<not> path_separator c"
  using set_drop_extension last_segment_separators unfolding pathe_filename_def by blast

lemma pathe_filename_same:
  "\<forall>c\<in>set y. \<not> path_separator c \<Longrightarrow> CHR ''.'' \<notin> set (tl y) \<Longrightarrow> pathe_filename y = y"
  by (simp add: pathe_filename_def last_segment_same drop_extension_same)

text \<open>
  C3 (as amended). \<open>filename\<close> is a function on all strings. Whatever \<open>_filename\<close> is, an
  identifier \<open>p?q\<close> whose \<open>p\<close> holds no \<open>?\<close> and whose query \<open>q\<close> is not empty and holds no
  line terminator is named as \<open>p\<close> is. With the base-name function of the specification,
  an identifier without \<open>?\<close>, \<open>.\<close>, \<open>/\<close> and backslash is returned unchanged, and applying
  \<open>filename\<close> to its own result changes nothing whenever that result holds no \<open>?\<close> and
  no \<open>.\<close> after its first character.
\<close>

theorem filename_strips_and_settles:
  "(CHR ''?'' \<notin> set p \<and> q \<noteq> [] \<and> \<not> list_ex line_terminator q \<longrightarrow>
      filename F (p @ CHR ''?'' # q) = F p) \<and>
   ((\<forall>c\<in>set x. c \<noteq> CHR ''?'' \<and> c \<noteq> CHR ''.'' \<and> \<not> path_separator c) \<longrightarrow>
      filename pathe_filename x = x) \<and>
   (CHR ''?'' \<notin> set (filename pathe_filename z) \<and> CHR ''.'' \<notin> set (tl (filename pathe_filename z)) \<longrightarrow>
      filename pathe_filename (filename pathe_filename z) = filename pathe_filename z)"
proof (intro conjI impI)
  assume "CHR ''?'' \<notin> set p \<and> q \<noteq> [] \<and> \<not> list_ex line_terminator q"
  then show "filename F (p @ CHR ''?'' # q) = F p"
    by (simp add: filename_def strip_query_suffix)
next
  assume a: "\<forall>c\<in>set x. c \<noteq> CHR ''?'' \<and> c \<noteq> CHR ''.'' \<and> \<not> path_separator c"
  then have "CHR ''?'' \<notin> set x" and "CHR ''.'' \<notin> set (tl x)" and "\<forall>c\<in>set x. \<not> path_separator c"
    by (auto dest: in_set_tl)
  then show "filename pathe_filename x = x"
    by (simp add: filename_def strip_query_without_mark pathe_filename_same)
next
  let ?y = "filename pathe_filename z"
  assume a: "CHR ''?'' \<notin> set ?y \<and> CHR ''.'' \<notin> set (tl ?y)"
  have "\<forall>c\<in>set ?y. \<not> path_separator c"
    by (simp add: filename_def pathe_filename_separators)
  with a show "filename pathe_filename ?y = ?y"
    by (simp add: filename_def[of _ ?y] strip_query_without_mark pathe_filename_same)
qed

theorem filename_strips_and_settles_witness:
  "filename pathe_filename ''/src/Foo.vue?vue&type=style'' = pathe_filename ''/src/Foo.vue'' \<and>
   filename pathe_filename ''Foo'' = ''Foo'' \<and>
   filename pathe_filename (filename pathe_filename ''/src/Foo.vue?macro=true'') = ''Foo''"
  using filename_strips_and_settles [of "''/src/Foo.vue''" "''vue&type=style''" pathe_filename "''Foo''" "''/src/Foo.vue?macro=true''"]
  by (simp add: filename_def pathe_filename_def last_segment_def drop_extension_def
      path_separator_def line_terminator_def)

text \<open>
  C3 as stated fails: a name with two extensions loses one of them at each application,
  \<open>a.b.c\<close> gives \<open>a.b\<close>, and \<open>a.b\<close> gives \<open>a\<close>.
\<close>

theorem filename_not_idempotent:
  "filename pathe_filename (filename pathe_filename ''a.b.c'') \<noteq> filename pathe_filename ''a.b.c''"
  by (simp add: filename_def pathe_filename_def last_segment_def drop_extension_def
      path_separator_def)

section \<open>The islands of a plugin instance\<close>

lemma islands_warn_once [simp]: "islands (warn_once k n s) = islands s"
  by (simp add: warn_once_def)

lemma islands_record_style [simp]: "islands (record_style h opts r f ref s) = islands s"
  by (simp add: record_style_def)

lemma islands_graph_styles [simp]:
  "islands (snd (graph_styles h opts m r e fs (n, s))) = islands s"
  by (induction fs arbitrary: n s) (simp_all add: emitFile_def)

lemma islands_import_styles [simp]:
  "islands (snd (import_styles h opts m r e fs (n, s))) = islands s"
  by (induction fs arbitrary: n s) (simp_all add: emitFile_def split: option.split)

lemma islands_global_styles [simp]:
  "islands (snd (global_styles h m fs (p, s))) = islands s"
  by (induction fs arbitrary: p s) (simp_all split: option.split)

lemma islands_inline_styles [simp]: "islands (inline_styles h opts code m p s) = islands s"
proof -
  have "graph_styles h opts m r e fs (0, s0) = (n', s') \<Longrightarrow> islands s' = islands s0" for r e fs s0 n' s'
    using islands_graph_styles [of h opts m r e fs 0 s0] by simp
  then show ?thesis
    unfolding inline_styles_def Let_def
    by (auto split: prod.split)
qed

lemma islands_transform_server [simp]: "islands (transform_server h opts code m s) = islands s"
  by (simp add: transform_server_def Let_def split: prod.split)

lemma islands_transform_client [simp]: "islands (snd (transform_client h opts code m s)) = islands s"
proof -
  have "global_styles h m fs ([], s0) = (p', s') \<Longrightarrow> islands s' = islands s0" for fs s0 p' s'
    using islands_global_styles [of h m fs "[]" s0] by simp
  then show ?thesis
    unfolding transform_client_def Let_def
    by (auto split: prod.split)
qed

lemma islands_transform [simp]: "islands (snd (transform h opts code m s)) = islands s"
  by (simp add: transform_def)

lemma islands_render_module [simp]: "islands (render_module h opts ch e m s) = islands s"
  by (simp add: render_module_def Let_def split: option.split)

lemma islands_fold_render_module [simp]:
  "islands (fold (render_module h opts ch e) ms s) = islands s"
  by (induction ms arbitrary: s) simp_all

lemma islands_renderChunk [simp]: "islands (renderChunk h opts ch s) = islands s"
  by (simp add: renderChunk_def Let_def)

lemma islands_emit_aggregates [simp]:
  "islands (snd (emit_aggregates h afn rs (em, s))) = islands s"
  by (induction rs arbitrary: em s) (auto simp: emitFile_def Let_def)

lemma islands_generateBundle [simp]: "islands (generateBundle h opts afn s) = islands s"
proof -
  have "emit_aggregates h afn rs ([], s) = (em, s') \<Longrightarrow> islands s' = islands s" for rs em s'
    using islands_emit_aggregates [of h afn rs "[]" s] by simp
  then show ?thesis
    unfolding generateBundle_def Let_def
    by (auto split: prod.split simp: emitFile_def)
qed

lemma islands_step [simp]: "islands (step h opts ev s) = islands s"
  by (cases ev) simp_all

lemma islands_run: "islands (run h opts evs s) = islands s"
  unfolding run_def by (induction evs arbitrary: s) simp_all

text \<open>
  C4. A component is among the islands of a plugin instance exactly when it is one of the
  given components and is flagged as an island, or has mode \<open>server\<close> while no other
  component of the list with the same \<open>pascalName\<close> has mode \<open>client\<close>. The islands are
  computed when the plugin is constructed, and no sequence of hook calls changes them.
\<close>

theorem island_classification:
  "(c \<in> set (islands (SSRStylesPlugin opts graph inlined)) \<longleftrightarrow>
      c \<in> set (components opts) \<and>
      (island c \<or>
       (mode c = Some ModeServer \<and>
        \<not> (\<exists>c'\<in>set (components opts).
              c' \<noteq> c \<and> pascalName c' = pascalName c \<and> mode c' = Some ModeClient)))) \<and>
   islands (run h opts evs (SSRStylesPlugin opts graph inlined)) = islands_of (components opts)"
proof
  show "c \<in> set (islands (SSRStylesPlugin opts graph inlined)) \<longleftrightarrow>
      c \<in> set (components opts) \<and>
      (island c \<or>
       (mode c = Some ModeServer \<and>
        \<not> (\<exists>c'\<in>set (components opts).
              c' \<noteq> c \<and> pascalName c' = pascalName c \<and> mode c' = Some ModeClient)))"
    by (auto simp: SSRStylesPlugin_def islands_of_def list_ex_iff)
  show "islands (run h opts evs (SSRStylesPlugin opts graph inlined)) = islands_of (components opts)"
    by (simp add: islands_run SSRStylesPlugin_def)
qed

theorem island_classification_witness:
  "\<lparr>filePath = ''/src/Foo.vue'', pascalName = ''Foo'', mode = Some ModeServer, island = False\<rparr>
     \<in> set (islands (SSRStylesPlugin (example_options ServerBuild (Flag False)) example_graph [])) \<and>
   islands (run example_host (example_options ServerBuild (Flag False))
              [Transform [] ''/src/Foo.vue'',
               RenderChunk \<lparr>facadeModuleId = None, moduleIds = [''/src/Foo.vue'']\<rparr>]
              (SSRStylesPlugin (example_options ServerBuild (Flag False)) example_graph [])) =
     [\<lparr>filePath = ''/src/Foo.vue'', pascalName = ''Foo'', mode = Some ModeServer, island = False\<rparr>]"
  using island_classification
    [of "\<lparr>filePath = ''/src/Foo.vue'', pascalName = ''Foo'', mode = Some ModeServer, island = False\<rparr>"
        "example_options ServerBuild (Flag False)" example_graph "[]" example_host
        "[Transform [] ''/src/Foo.vue'',
          RenderChunk \<lparr>facadeModuleId = None, moduleIds = [''/src/Foo.vue'']\<rparr>]"]
  by (simp add: example_options_def example_components_def islands_of_def)

section \<open>Warnings\<close>

lemma warned_once_warn_once [simp]: "warned_once s \<Longrightarrow> warned_once (warn_once k n s)"
  by (auto simp: warned_once_def warn_once_def)

lemma warned_once_record_style [simp]:
  "warned_once (record_style h opts r f ref s) = warned_once s"
  by (simp add: warned_once_def record_style_def)

lemma warned_once_emittedFiles [simp]: "warned_once (s\<lparr>emittedFiles := x\<rparr>) = warned_once s"
  by (simp add: warned_once_def)

lemma warned_once_clientCSSMap [simp]: "warned_once (s\<lparr>clientCSSMap := x\<rparr>) = warned_once s"
  by (simp add: warned_once_def)

lemma warned_once_cssMap [simp]: "warned_once (s\<lparr>cssMap := x\<rparr>) = warned_once s"
  by (simp add: warned_once_def)

lemma warned_once_chunksWithInlinedCSS [simp]:
  "warned_once (s\<lparr>chunksWithInlinedCSS := x\<rparr>) = warned_once s"
  by (simp add: warned_once_def)

lemma warned_once_graph_styles:
  "warned_once s \<Longrightarrow> warned_once (snd (graph_styles h opts m r e fs (n, s)))"
  by (induction fs arbitrary: n s) (simp_all add: emitFile_def)

lemma warned_once_import_styles:
  "warned_once s \<Longrightarrow> warned_once (snd (import_styles h opts m r e fs (n, s)))"
  by (induction fs arbitrary: n s) (simp_all add: emitFile_def split: option.split)

lemma warned_once_global_styles:
  "warned_once s \<Longrightarrow> warned_once (snd (global_styles h m fs (p, s)))"
  by (induction fs arbitrary: p s) (simp_all split: option.split)

lemma warned_once_inline_styles:
  assumes "warned_once s"
  shows "warned_once (inline_styles h opts code m p s)"
proof -
  let ?r = "relativeToSrcDir h opts m"
  let ?s0 = "s\<lparr>cssMap := (if has_key ?r (cssMap s) then cssMap s
                            else cssMap s @ [(?r, \<lparr>files = [], inBundle = None\<rparr>)])\<rparr>"
  let ?ids = "case map_of (clientCSSMap ?s0) m of Some fs \<Rightarrow> fs | None \<Rightarrow> []"
  obtain n s1 where g: "graph_styles h opts m ?r [] ?ids (0, ?s0) = (n, s1)"
    by (cases "graph_styles h opts m ?r [] ?ids (0, ?s0)")
  have "warned_once ?s0" using assms by simp
  then have s1: "warned_once s1"
    using warned_once_graph_styles [of ?s0 h opts m ?r "[]" ?ids 0] g by simp
  then have "warned_once (snd (import_styles h opts m ?r [] (findStaticImports h code) (n, s1)))"
    by (rule warned_once_import_styles)
  with s1 g show ?thesis
    by (simp add: inline_styles_def Let_def)
qed

lemma warned_once_transform_server:
  "warned_once s \<Longrightarrow> warned_once (transform_server h opts code m s)"
  by (simp add: transform_server_def Let_def warned_once_inline_styles split: prod.split)

lemma warned_once_transform_client:
  assumes "warned_once s"
  shows "warned_once (snd (transform_client h opts code m s))"
proof -
  let ?s0 = "s\<lparr>clientCSSMap := ensure_set m (clientCSSMap s)\<rparr>"
  obtain p s1 where g: "global_styles h m (globalCSS opts) ([], ?s0) = (p, s1)"
    by (cases "global_styles h m (globalCSS opts) ([], ?s0)")
  have "warned_once ?s0" using assms by simp
  then have "warned_once s1"
    using warned_once_global_styles [of ?s0 h m "globalCSS opts" "[]"] g by simp
  with assms g show ?thesis
    by (auto simp: transform_client_def Let_def)
qed

lemma warned_once_transform:
  "warned_once s \<Longrightarrow> warned_once (snd (transform h opts code m s))"
  by (simp add: transform_def warned_once_transform_server warned_once_transform_client)

lemma warned_once_render_module [simp]:
  "warned_once (render_module h opts ch e m s) = warned_once s"
  by (simp add: render_module_def Let_def split: option.split)

lemma warned_once_fold_render_module [simp]:
  "warned_once (fold (render_module h opts ch e) ms s) = warned_once s"
  by (induction ms arbitrary: s) simp_all

lemma warned_once_renderChunk: "warned_once (renderChunk h opts ch s) = warned_once s"
  by (simp add: renderChunk_def Let_def)

lemma warned_once_emit_aggregates:
  "warned_once (snd (emit_aggregates h afn rs (em, s))) = warned_once s"
  by (induction h afn rs "(em, s)" arbitrary: em s rule: emit_aggregates.induct)
    (simp_all add: emitFile_def Let_def)

lemma warned_once_generateBundle: "warned_once (generateBundle h opts afn s) = warned_once s"
proof -
  obtain em s1 where g: "emit_aggregates h afn (cssMap s) ([], s) = (em, s1)"
    by (cases "emit_aggregates h afn (cssMap s) ([], s)")
  then have "warned_once s1 = warned_once s"
    using warned_once_emit_aggregates [of h afn "cssMap s" "[]" s] by simp
  with g show ?thesis
    by (simp add: generateBundle_def Let_def emitFile_def)
qed

lemma warned_once_step: "warned_once s \<Longrightarrow> warned_once (step h opts ev s)"
  by (cases ev)
    (simp_all add: warned_once_transform warned_once_renderChunk warned_once_generateBundle)

lemma warned_once_run: "warned_once s \<Longrightarrow> warned_once (run h opts evs s)"
  unfolding run_def by (induction evs arbitrary: s) (simp_all add: warned_once_step)

lemma warned_once_initially: "warned_once (SSRStylesPlugin opts graph inlined)"
  by (simp add: warned_once_def SSRStylesPlugin_def)

lemma distinct_keys_filter: "distinct (map fst ws) \<Longrightarrow> length (filter (\<lambda>w. fst w = f) ws) \<le> 1"
  by (induction ws) (auto simp: filter_empty_conv image_iff)

lemma warned_for_warn_once_same [simp]: "warned_for h s \<Longrightarrow> warned_for h (warn_once f f s)"
  by (auto simp: warned_for_def warn_once_def)

lemma warned_for_warn_once_resolved:
  "warned_for h s \<Longrightarrow> resolve h n (Some m) = Some r \<Longrightarrow> warned_for h (warn_once (rid r) n s)"
  by (auto simp: warned_for_def warn_once_def)

lemma warned_for_record_style [simp]:
  "warned_for h (record_style h' opts r f ref s) = warned_for h s"
  by (simp add: warned_for_def record_style_def)

lemma warned_for_emittedFiles [simp]: "warned_for h (s\<lparr>emittedFiles := x\<rparr>) = warned_for h s"
  by (simp add: warned_for_def)

lemma warned_for_clientCSSMap [simp]: "warned_for h (s\<lparr>clientCSSMap := x\<rparr>) = warned_for h s"
  by (simp add: warned_for_def)

lemma warned_for_cssMap [simp]: "warned_for h (s\<lparr>cssMap := x\<rparr>) = warned_for h s"
  by (simp add: warned_for_def)

lemma warned_for_chunksWithInlinedCSS [simp]:
  "warned_for h (s\<lparr>chunksWithInlinedCSS := x\<rparr>) = warned_for h s"
  by (simp add: warned_for_def)

lemma warned_for_graph_styles:
  "warned_for h s \<Longrightarrow> warned_for h (snd (graph_styles h opts m r e fs (n, s)))"
  by (induction fs arbitrary: n s) (simp_all add: emitFile_def)

lemma warned_for_import_styles:
  "warned_for h s \<Longrightarrow> warned_for h (snd (import_styles h opts m r e fs (n, s)))"
  by (induction fs arbitrary: n s)
    (simp_all add: emitFile_def warned_for_warn_once_resolved split: option.split)

lemma warned_for_global_styles:
  "warned_for h s \<Longrightarrow> warned_for h (snd (global_styles h m fs (p, s)))"
  by (induction fs arbitrary: p s) (simp_all split: option.split)

lemma warned_for_inline_styles:
  assumes "warned_for h s"
  shows "warned_for h (inline_styles h opts code m p s)"
proof -
  let ?r = "relativeToSrcDir h opts m"
  define s0 where "s0 = s\<lparr>cssMap := (if has_key ?r (cssMap s) then cssMap s
                            else cssMap s @ [(?r, \<lparr>files = [], inBundle = None\<rparr>)])\<rparr>"
  define ids where "ids = (case map_of (clientCSSMap s0) m of Some fs \<Rightarrow> fs | None \<Rightarrow> [])"
  obtain n s1 where g: "graph_styles h opts m ?r [] ids (0, s0) = (n, s1)"
    by (cases "graph_styles h opts m ?r [] ids (0, s0)")
  have "warned_for h s0" using assms by (simp add: s0_def)
  then have s1: "warned_for h s1"
    using warned_for_graph_styles [of h s0 opts m ?r "[]" ids 0] g by simp
  then have i: "warned_for h (snd (import_styles h opts m ?r [] (findStaticImports h code) (n, s1)))"
    by (rule warned_for_import_styles)
  have "inline_styles h opts code m p s =
      (if \<not> SUPPORTED_FILES_RE p then s1
       else snd (import_styles h opts m ?r [] (findStaticImports h code) (n, s1)))"
    using g unfolding s0_def ids_def by (simp add: inline_styles_def Let_def)
  with s1 i show ?thesis by simp
qed

lemma warned_for_transform_server:
  "warned_for h s \<Longrightarrow> warned_for h (transform_server h opts code m s)"
  by (simp add: transform_server_def Let_def warned_for_inline_styles split: prod.split)

lemma warned_for_transform_client:
  assumes "warned_for h s"
  shows "warned_for h (snd (transform_client h opts code m s))"
proof -
  let ?s0 = "s\<lparr>clientCSSMap := ensure_set m (clientCSSMap s)\<rparr>"
  obtain p s1 where g: "global_styles h m (globalCSS opts) ([], ?s0) = (p, s1)"
    by (cases "global_styles h m (globalCSS opts) ([], ?s0)")
  have "warned_for h ?s0" using assms by simp
  then have "warned_for h s1"
    using warned_for_global_styles [of h ?s0 m "globalCSS opts" "[]"] g by simp
  with assms g show ?thesis
    by (auto simp: transform_client_def Let_def)
qed

lemma warnings_render_module [simp]: "warnings (render_module h opts ch e m s) = warnings s"
  by (simp add: render_module_def Let_def split: option.split)

lemma warnings_renderChunk: "warnings (renderChunk h opts ch s) = warnings s"
proof -
  have "warnings (fold (render_module h opts ch e) ms s0) = warnings s0" for e ms s0
    by (induction ms arbitrary: s0) simp_all
  then show ?thesis by (simp add: renderChunk_def Let_def)
qed

lemma warnings_emit_aggregates [simp]:
  "warnings (snd (emit_aggregates h afn rs (em, s))) = warnings s"
  by (induction h afn rs "(em, s)" arbitrary: em s rule: emit_aggregates.induct)
    (simp_all add: emitFile_def Let_def)

lemma warnings_generateBundle: "warnings (generateBundle h opts afn s) = warnings s"
proof -
  obtain em s1 where g: "emit_aggregates h afn (cssMap s) ([], s) = (em, s1)"
    by (cases "emit_aggregates h afn (cssMap s) ([], s)")
  then have "warnings s1 = warnings s"
    using warnings_emit_aggregates [of h afn "cssMap s" "[]" s] by simp
  with g show ?thesis
    by (simp add: generateBundle_def Let_def emitFile_def)
qed

lemma warned_for_step: "warned_for h s \<Longrightarrow> warned_for h (step h opts ev s)"
proof (cases ev)
  case (Transform code m)
  assume "warned_for h s"
  with Transform show ?thesis
    by (simp add: transform_def warned_for_transform_server warned_for_transform_client)
next
  case (RenderChunk ch)
  assume "warned_for h s"
  with RenderChunk show ?thesis
    by (simp add: warned_for_def warnings_renderChunk)
next
  case (GenerateBundle afn)
  assume "warned_for h s"
  with GenerateBundle show ?thesis
    by (simp add: warned_for_def warnings_generateBundle)
next
  case (Shared g i)
  assume "warned_for h s"
  with Shared show ?thesis by simp
qed

lemma warned_for_run: "warned_for h s \<Longrightarrow> warned_for h (run h opts evs s)"
  unfolding run_def by (induction evs arbitrary: s) (simp_all add: warned_for_step)

lemma warned_for_initially: "warned_for h (SSRStylesPlugin opts graph inlined)"
  by (simp add: warned_for_def SSRStylesPlugin_def)

lemma distinct_keys_same_name:
  assumes "distinct (map fst ws)" and "\<forall>w\<in>set ws. snd w = n \<longrightarrow> fst w = n"
  shows "length (filter (\<lambda>w. snd w = n) ws) \<le> 1"
proof -
  have "filter (\<lambda>w. snd w = n) ws = filter (\<lambda>w. snd w = n) (filter (\<lambda>w. fst w = n) ws)"
    using assms(2) by (auto intro: filter_cong)
  then have "length (filter (\<lambda>w. snd w = n) ws) \<le> length (filter (\<lambda>w. fst w = n) ws)"
    by (metis length_filter_le)
  with distinct_keys_filter [OF assms(1), of n] show ?thesis by simp
qed

text \<open>
  C6 (as amended). In any sequence of hook calls on one plugin instance, whatever the
  bundler resolves and however often the shared graph is replaced, at most one warning is
  emitted for any one identifier under which the plugin remembers a file as unresolved.
  For a file of the graph or of the global style sheets that identifier is the raw id,
  which the message prints; for a static import it is the resolved id, while the message
  prints the specifier: the identifier of a warning is the printed name or an id that
  some importer resolves that name to. So a name that no importer resolves to another id
  is printed by at most one warning.
\<close>

theorem one_warning_per_cached_id:
  "length (filter (\<lambda>w. fst w = f)
     (warnings (run h opts evs (SSRStylesPlugin opts graph inlined)))) \<le> 1 \<and>
   ((k, n) \<in> set (warnings (run h opts evs (SSRStylesPlugin opts graph inlined))) \<longrightarrow>
      k = n \<or> (\<exists>importer r. resolve h n (Some importer) = Some r \<and> rid r = k)) \<and>
   ((\<forall>importer r. resolve h n (Some importer) = Some r \<longrightarrow> rid r = n) \<longrightarrow>
      length (filter (\<lambda>w. snd w = n)
        (warnings (run h opts evs (SSRStylesPlugin opts graph inlined)))) \<le> 1)"
proof (intro conjI impI)
  let ?ws = "warnings (run h opts evs (SSRStylesPlugin opts graph inlined))"
  have "warned_once (run h opts evs (SSRStylesPlugin opts graph inlined))"
    by (rule warned_once_run) (rule warned_once_initially)
  then have keys: "distinct (map fst ?ws)"
    by (simp add: warned_once_def)
  then show "length (filter (\<lambda>w. fst w = f) ?ws) \<le> 1"
    by (rule distinct_keys_filter)
  have "warned_for h (run h opts evs (SSRStylesPlugin opts graph inlined))"
    by (rule warned_for_run) (rule warned_for_initially)
  then have ids: "\<forall>w\<in>set ?ws. fst w = snd w \<or>
      (\<exists>importer r. resolve h (snd w) (Some importer) = Some r \<and> rid r = fst w)"
    by (simp add: warned_for_def)
  {
    assume "(k, n) \<in> set ?ws"
    with ids show "k = n \<or> (\<exists>importer r. resolve h n (Some importer) = Some r \<and> rid r = k)"
      by fastforce
  }
  {
    assume "\<forall>importer r. resolve h n (Some importer) = Some r \<longrightarrow> rid r = n"
    with ids have "\<forall>w\<in>set ?ws. snd w = n \<longrightarrow> fst w = n"
      by fastforce
    with keys show "length (filter (\<lambda>w. snd w = n) ?ws) \<le> 1"
      by (rule distinct_keys_same_name)
  }
qed

theorem one_warning_per_cached_id_witness:
  "warnings (run example_host (example_options ServerBuild (Flag True))
      [Transform [] ''/src/a.vue'', Transform [] ''/src/b.vue'', Transform [] ''/src/a.vue'']
      (SSRStylesPlugin (example_options ServerBuild (Flag True)) example_graph [])) =
     [(''/src/missing.css'', ''/src/missing.css'')] \<and>
   length (filter (\<lambda>w. fst w = ''/src/missing.css'')
     (warnings (run example_host (example_options ServerBuild (Flag True))
        [Transform [] ''/src/a.vue'', Transform [] ''/src/b.vue'', Transform [] ''/src/a.vue'']
        (SSRStylesPlugin (example_options ServerBuild (Flag True)) example_graph [])))) \<le> 1 \<and>
   length (filter (\<lambda>w. snd w = ''/src/missing.css'')
     (warnings (run example_host (example_options ServerBuild (Flag True))
        [Transform [] ''/src/a.vue'', Transform [] ''/src/b.vue'', Transform [] ''/src/a.vue'']
        (SSRStylesPlugin (example_options ServerBuild (Flag True)) example_graph [])))) \<le> 1"
proof -
  let ?evs = "[Transform [] ''/src/a.vue'', Transform [] ''/src/b.vue'', Transform [] ''/src/a.vue'']"
  let ?opts = "example_options ServerBuild (Flag True)"
  have log: "warnings (run example_host ?opts ?evs (SSRStylesPlugin ?opts example_graph [])) =
     [(''/src/missing.css'', ''/src/missing.css'')]"
    by code_simp
  have own: "\<forall>importer r. resolve example_host ''/src/missing.css'' (Some importer) = Some r \<longrightarrow>
      rid r = ''/src/missing.css''"
    by (simp add: example_host_def example_resolve_def)
  have logged: "(''/src/missing.css'', ''/src/missing.css'') \<in>
      set (warnings (run example_host ?opts ?evs (SSRStylesPlugin ?opts example_graph [])))"
    unfolding log by simp
  note inst = one_warning_per_cached_id [of "''/src/missing.css''" example_host ?opts ?evs
      example_graph "[]" "''/src/missing.css''" "''/src/missing.css''"]
  have "length (filter (\<lambda>w. fst w = ''/src/missing.css'')
      (warnings (run example_host ?opts ?evs (SSRStylesPlugin ?opts example_graph [])))) \<le> 1"
    using inst by blast
  moreover have "length (filter (\<lambda>w. snd w = ''/src/missing.css'')
      (warnings (run example_host ?opts ?evs (SSRStylesPlugin ?opts example_graph [])))) \<le> 1"
    using inst own logged by blast
  ultimately show ?thesis using log by blast
qed

text \<open>
  C6 as stated fails: the graph holds \<open>/src/m.css\<close> for \<open>/src/a.vue\<close>, whose code imports the
  same \<open>/src/m.css\<close>; the resolver answers \<open>/real/m.css\<close>, and no inline variant resolves.
  One transform warns twice about the one file, under the raw id and under the resolved
  id, and both messages print \<open>/src/m.css\<close>.
\<close>

theorem one_file_warned_twice:
  "warnings (snd (transform alias_host (example_options ServerBuild (Flag True))
      ''import /src/m.css'' ''/src/a.vue''
      (SSRStylesPlugin (example_options ServerBuild (Flag True))
         [(''/src/a.vue'', [''/src/m.css''])] []))) =
     [(''/src/m.css'', ''/src/m.css''), (''/real/m.css'', ''/src/m.css'')]"
  by code_simp

section \<open>The inBundle latch of the server pass\<close>

lemma cssMap_render_module:
  assumes "build opts = ServerBuild"
  shows "map_of (cssMap (render_module h opts ch e m s)) k =
           observe h opts k (m, e) (map_of (cssMap s) k)"
proof (cases "has_key (relativeToSrcDir h opts m) (cssMap s)")
  case True
  with assms show ?thesis
    by (simp add: render_module_def observe_def Let_def map_of_map_entry map_option_case
        split: option.split)
next
  case False
  then have "map_of (cssMap s) (relativeToSrcDir h opts m) = None"
    by (simp add: has_key_def)
  with assms False show ?thesis
    by (auto simp: render_module_def observe_def Let_def)
qed

lemma cssMap_fold_render_module:
  assumes "build opts = ServerBuild"
  shows "map_of (cssMap (fold (render_module h opts ch e) ms s)) k =
           fold (observe h opts k) (map (\<lambda>m. (m, e)) ms) (map_of (cssMap s) k)"
  by (induction ms arbitrary: s) (simp_all add: cssMap_render_module [OF assms])

lemma cssMap_renderChunk:
  assumes "build opts = ServerBuild"
  shows "map_of (cssMap (renderChunk h opts ch s)) k =
           fold (observe h opts k) (observations opts [ch]) (map_of (cssMap s) k)"
  by (simp add: renderChunk_def Let_def observations_def cssMap_fold_render_module [OF assms])

lemma cssMap_renderChunks:
  assumes "build opts = ServerBuild"
  shows "map_of (cssMap (fold (renderChunk h opts) chs s)) k =
           fold (observe h opts k) (observations opts chs) (map_of (cssMap s) k)"
proof (induction chs arbitrary: s)
  case Nil
  show ?case by (simp add: observations_def)
next
  case (Cons ch chs)
  have "observations opts (ch # chs) = observations opts [ch] @ observations opts chs"
    by (simp add: observations_def)
  with Cons show ?case
    by (simp add: cssMap_renderChunk [OF assms])
qed

lemma observe_latched:
  "inBundle r = Some b \<Longrightarrow>
   \<exists>r'. fold (observe h opts k) obs (Some r) = Some r' \<and> files r' = files r \<and> inBundle r' = Some b"
proof (induction obs arbitrary: r)
  case Nil
  then show ?case by simp
next
  case (Cons me obs)
  have "\<exists>r1. observe h opts k me (Some r) = Some r1 \<and> files r1 = files r \<and> inBundle r1 = Some b"
    using Cons.prems by (cases "relativeToSrcDir h opts (fst me) = k") (simp_all add: observe_def)
  then obtain r1 where r1: "observe h opts k me (Some r) = Some r1" "files r1 = files r" "inBundle r1 = Some b"
    by blast
  from Cons.IH [OF r1(3)] r1 show ?case by auto
qed

lemma observe_first:
  "inBundle r = None \<Longrightarrow>
   \<exists>r'. fold (observe h opts k) obs (Some r) = Some r' \<and> files r' = files r \<and>
     inBundle r' =
       (case find (\<lambda>me. relativeToSrcDir h opts (fst me) = k) obs of
          None \<Rightarrow> None
        | Some me \<Rightarrow> Some ((isVue h (fst me) \<and> k \<noteq> []) \<or> snd me))"
proof (induction obs arbitrary: r)
  case Nil
  then show ?case by simp
next
  case (Cons me obs)
  show ?case
  proof (cases "relativeToSrcDir h opts (fst me) = k")
    case True
    let ?r1 = "r\<lparr>inBundle := Some ((isVue h (fst me) \<and> k \<noteq> []) \<or> snd me)\<rparr>"
    have "observe h opts k me (Some r) = Some ?r1"
      using True Cons.prems by (simp add: observe_def)
    moreover have "\<exists>r'. fold (observe h opts k) obs (Some ?r1) = Some r' \<and> files r' = files ?r1 \<and>
        inBundle r' = Some ((isVue h (fst me) \<and> k \<noteq> []) \<or> snd me)"
      by (rule observe_latched) simp
    ultimately show ?thesis using True by auto
  next
    case False
    then have "observe h opts k me (Some r) = Some r"
      by (simp add: observe_def)
    with Cons.IH [OF Cons.prems] False show ?thesis by auto
  qed
qed

text \<open>
  C7. In the server pass, rendering any list of chunks keeps every style record and its
  files; a record whose \<open>inBundle\<close> already holds a value keeps that value, true or false,
  and a record whose \<open>inBundle\<close> is still unset receives its value from the first observed
  module id whose path relative to the source directory is the record's key: true when
  that module is a Vue file and the key is not empty, or when the chunk it is observed in
  is the entry chunk. Later observations do not change it.
\<close>

theorem inBundle_assigned_once:
  assumes "build opts = ServerBuild" and "map_of (cssMap s) k = Some r"
  shows "\<exists>r'. map_of (cssMap (fold (renderChunk h opts) chs s)) k = Some r' \<and> files r' = files r \<and>
     inBundle r' =
       (case inBundle r of
          Some b \<Rightarrow> Some b
        | None \<Rightarrow>
            (case find (\<lambda>me. relativeToSrcDir h opts (fst me) = k) (observations opts chs) of
               None \<Rightarrow> None
             | Some me \<Rightarrow> Some ((isVue h (fst me) \<and> k \<noteq> []) \<or> snd me)))"
proof (cases "inBundle r")
  case None
  from observe_first [OF None, of h opts k "observations opts chs"] None assms(2)
  show ?thesis by (simp add: cssMap_renderChunks [OF assms(1)])
next
  case (Some b)
  from observe_latched [OF Some, of h opts k "observations opts chs"] Some assms(2)
  show ?thesis by (simp add: cssMap_renderChunks [OF assms(1)])
qed

theorem inBundle_assigned_once_witness:
  "map_of (cssMap (fold (renderChunk example_host (example_options ServerBuild (Flag True)))
      [\<lparr>facadeModuleId = Some ''/src/other.js'', moduleIds = [''/src/other.js'', ''/src/plain.js'']\<rparr>,
       \<lparr>facadeModuleId = Some ''/src/entry.js'', moduleIds = [''/src/entry.js'', ''/src/plain.js'']\<rparr>]
      ((SSRStylesPlugin (example_options ServerBuild (Flag True)) example_graph [])
         \<lparr>cssMap := [(''plain.js'', \<lparr>files = [0], inBundle = None\<rparr>)]\<rparr>))) ''plain.js'' =
     Some \<lparr>files = [0], inBundle = Some False\<rparr>"
proof -
  let ?opts = "example_options ServerBuild (Flag True)"
  let ?s = "(SSRStylesPlugin ?opts example_graph [])
              \<lparr>cssMap := [(''plain.js'', \<lparr>files = [0], inBundle = None\<rparr>)]\<rparr>"
  let ?chs = "[\<lparr>facadeModuleId = Some ''/src/other.js'', moduleIds = [''/src/other.js'', ''/src/plain.js'']\<rparr>,
       \<lparr>facadeModuleId = Some ''/src/entry.js'', moduleIds = [''/src/entry.js'', ''/src/plain.js'']\<rparr>]"
  have mode: "build ?opts = ServerBuild"
    by (simp add: example_options_def)
  have rec: "map_of (cssMap ?s) ''plain.js'' = Some \<lparr>files = [0], inBundle = None\<rparr>"
    by simp
  have first: "find (\<lambda>me. relativeToSrcDir example_host ?opts (fst me) = ''plain.js'')
                 (observations ?opts ?chs) = Some (''/src/plain.js'', False)"
    by code_simp
  have vue: "isVue example_host ''/src/plain.js'' = False"
    by code_simp
  from inBundle_assigned_once [OF mode rec, of example_host ?chs] first vue
  show ?thesis by auto
qed

section \<open>The shared graph in the server pass\<close>

lemma clientCSSMap_warn_once [simp]: "clientCSSMap (warn_once k n s) = clientCSSMap s"
  by (simp add: warn_once_def)

lemma clientCSSMap_record_style [simp]:
  "clientCSSMap (record_style h opts r f ref s) = clientCSSMap s"
  by (simp add: record_style_def)

lemma clientCSSMap_graph_styles [simp]:
  "clientCSSMap (snd (graph_styles h opts m r e fs (n, s))) = clientCSSMap s"
  by (induction fs arbitrary: n s) (simp_all add: emitFile_def)

lemma clientCSSMap_import_styles [simp]:
  "clientCSSMap (snd (import_styles h opts m r e fs (n, s))) = clientCSSMap s"
  by (induction fs arbitrary: n s) (simp_all add: emitFile_def split: option.split)

lemma clientCSSMap_inline_styles [simp]:
  "clientCSSMap (inline_styles h opts code m p s) = clientCSSMap s"
proof -
  have "graph_styles h opts m r e fs (0, s0) = (n', s') \<Longrightarrow> clientCSSMap s' = clientCSSMap s0"
    for r e fs s0 n' s'
    using clientCSSMap_graph_styles [of h opts m r e fs 0 s0] by simp
  then show ?thesis
    unfolding inline_styles_def Let_def
    by (auto split: prod.split)
qed

lemma clientCSSMap_transform_server:
  "clientCSSMap (transform_server h opts code m s) = clientCSSMap s"
  by (simp add: transform_server_def Let_def split: prod.split)

lemma clientCSSMap_emit_aggregates [simp]:
  "clientCSSMap (snd (emit_aggregates h afn rs (em, s))) = clientCSSMap s"
  by (induction h afn rs "(em, s)" arbitrary: em s rule: emit_aggregates.induct)
    (simp_all add: emitFile_def Let_def)

lemma clientCSSMap_generateBundle:
  "clientCSSMap (generateBundle h opts afn s) = clientCSSMap s"
proof -
  obtain em s1 where g: "emit_aggregates h afn (cssMap s) ([], s) = (em, s1)"
    by (cases "emit_aggregates h afn (cssMap s) ([], s)")
  then have "clientCSSMap s1 = clientCSSMap s"
    using clientCSSMap_emit_aggregates [of h afn "cssMap s" "[]" s] by simp
  with g show ?thesis
    by (simp add: generateBundle_def Let_def emitFile_def)
qed

lemma clientCSSMap_render_module:
  "build opts = ServerBuild \<Longrightarrow> clientCSSMap (render_module h opts ch e m s) = clientCSSMap s"
  by (simp add: render_module_def Let_def)

lemma clientCSSMap_fold_render_module:
  "build opts = ServerBuild \<Longrightarrow>
   clientCSSMap (fold (render_module h opts ch e) ms s) = clientCSSMap s"
  by (induction ms arbitrary: s) (simp_all add: clientCSSMap_render_module)

lemma clientCSSMap_transform_client:
  "m \<noteq> entry opts \<or> \<not> inlining_requested (shouldInline opts) (Some m) \<Longrightarrow>
   clientCSSMap (snd (transform_client h opts code m s)) = clientCSSMap s"
  by (auto simp: transform_client_def)

text \<open>
  C8 (as amended). The graph is written by \<open>renderChunk\<close>, and by \<open>transform\<close> in the
  client pass for the entry module when inlining is requested; \<open>generateBundle\<close> and every
  other call of \<open>transform\<close> leave it as it is. While the plugin runs in server mode,
  \<open>renderChunk\<close> changes it in one case only: when the facade module of the chunk is the
  configured entry and the graph has no key for it, that key is added with an empty set.
  Every key that was in the graph keeps its place and its set.
\<close>

theorem server_pass_graph:
  "clientCSSMap (generateBundle h opts afn s) = clientCSSMap s \<and>
   (build opts = ServerBuild \<or> m \<noteq> entry opts \<or> \<not> inlining_requested (shouldInline opts) (Some m) \<longrightarrow>
      clientCSSMap (snd (transform h opts code m s)) = clientCSSMap s) \<and>
   (build opts = ServerBuild \<longrightarrow>
      clientCSSMap (renderChunk h opts ch s) =
        (if facadeModuleId ch = Some (entry opts) \<and> \<not> has_key (entry opts) (clientCSSMap s)
         then clientCSSMap s @ [(entry opts, [])]
         else clientCSSMap s))"
proof (intro conjI impI)
  show "clientCSSMap (generateBundle h opts afn s) = clientCSSMap s"
    by (rule clientCSSMap_generateBundle)
next
  assume "build opts = ServerBuild \<or> m \<noteq> entry opts \<or> \<not> inlining_requested (shouldInline opts) (Some m)"
  then show "clientCSSMap (snd (transform h opts code m s)) = clientCSSMap s"
    by (cases "build opts")
      (auto simp: transform_def clientCSSMap_transform_server clientCSSMap_transform_client)
next
  assume "build opts = ServerBuild"
  then show "clientCSSMap (renderChunk h opts ch s) =
           (if facadeModuleId ch = Some (entry opts) \<and> \<not> has_key (entry opts) (clientCSSMap s)
            then clientCSSMap s @ [(entry opts, [])]
            else clientCSSMap s)"
    by (simp add: renderChunk_def Let_def clientCSSMap_fold_render_module ensure_set_def)
qed

theorem server_pass_graph_witness:
  "clientCSSMap (snd (transform example_host (example_options ServerBuild (Flag True))
      ''import ./a.css'' ''/src/a.vue''
      (SSRStylesPlugin (example_options ServerBuild (Flag True)) example_graph []))) = example_graph \<and>
   clientCSSMap (generateBundle example_host (example_options ServerBuild (Flag True))
      (AssetNamePattern ''assets/[name]'')
      (SSRStylesPlugin (example_options ServerBuild (Flag True)) example_graph [])) = example_graph \<and>
   clientCSSMap (renderChunk example_host (example_options ServerBuild (Flag True))
      \<lparr>facadeModuleId = Some ''/src/entry.js'', moduleIds = [''/src/entry.js'', ''/src/a.vue'']\<rparr>
      (SSRStylesPlugin (example_options ServerBuild (Flag True)) example_graph [])) =
     example_graph @ [(''/src/entry.js'', [])]"
proof -
  let ?opts = "example_options ServerBuild (Flag True)"
  let ?s = "SSRStylesPlugin ?opts example_graph []"
  have mode: "build ?opts = ServerBuild"
    by (simp add: example_options_def)
  have absent: "\<not> has_key (entry ?opts) (clientCSSMap ?s)"
    by code_simp
  have facade: "entry ?opts = ''/src/entry.js''" and graph: "clientCSSMap ?s = example_graph"
    by (simp_all add: example_options_def SSRStylesPlugin_def)
  from server_pass_graph [of example_host ?opts "AssetNamePattern ''assets/[name]''" ?s
      "''/src/a.vue''" "''import ./a.css''"
      "\<lparr>facadeModuleId = Some ''/src/entry.js'', moduleIds = [''/src/entry.js'', ''/src/a.vue'']\<rparr>"]
    mode absent facade graph
  show ?thesis by simp
qed

text \<open>
  C8 as stated fails: rendering the entry chunk in server mode adds the entry module to a
  graph that did not hold it.
\<close>

theorem server_renderChunk_writes_graph:
  "clientCSSMap (renderChunk example_host (example_options ServerBuild (Flag True))
      \<lparr>facadeModuleId = Some ''/src/entry.js'', moduleIds = [''/src/entry.js'']\<rparr>
      (SSRStylesPlugin (example_options ServerBuild (Flag True)) example_graph [])) \<noteq>
   clientCSSMap (SSRStylesPlugin (example_options ServerBuild (Flag True)) example_graph [])"
  by code_simp

section \<open>The keys of cssMap\<close>

text \<open>
  The keys of \<open>cssMap\<close> are pairwise different in every state a build reaches, as the keys
  of a JavaScript object are.
\<close>

lemma cssMap_warn_once [simp]: "cssMap (warn_once k n s) = cssMap s"
  by (simp add: warn_once_def)

lemma keys_record_style [simp]:
  "map fst (cssMap (record_style h opts r f ref s)) = map fst (cssMap s)"
proof -
  have "map fst (AList.map_entry k g xs) = map fst xs" for k g and xs :: "(string \<times> style_record) list"
    by (induction xs) auto
  then show ?thesis by (simp add: record_style_def)
qed

lemma keys_graph_styles [simp]:
  "map fst (cssMap (snd (graph_styles h opts m r e fs (n, s)))) = map fst (cssMap s)"
  by (induction fs arbitrary: n s) (simp_all add: emitFile_def)

lemma keys_import_styles [simp]:
  "map fst (cssMap (snd (import_styles h opts m r e fs (n, s)))) = map fst (cssMap s)"
  by (induction fs arbitrary: n s) (simp_all add: emitFile_def split: option.split)

lemma keys_inline_styles:
  assumes "distinct (map fst (cssMap s))"
  shows "distinct (map fst (cssMap (inline_styles h opts code m p s)))"
proof -
  let ?r = "relativeToSrcDir h opts m"
  define s0 where "s0 = s\<lparr>cssMap := (if has_key ?r (cssMap s) then cssMap s
                            else cssMap s @ [(?r, \<lparr>files = [], inBundle = None\<rparr>)])\<rparr>"
  define ids where "ids = (case map_of (clientCSSMap s0) m of Some fs \<Rightarrow> fs | None \<Rightarrow> [])"
  obtain n s1 where g: "graph_styles h opts m ?r [] ids (0, s0) = (n, s1)"
    by (cases "graph_styles h opts m ?r [] ids (0, s0)")
  have "distinct (map fst (cssMap s0))"
    using assms by (auto simp: s0_def has_key_def map_of_eq_None_iff)
  moreover have "map fst (cssMap s1) = map fst (cssMap s0)"
    using keys_graph_styles [of h opts m ?r "[]" ids 0 s0] g by simp
  ultimately have s1: "distinct (map fst (cssMap s1))" by simp
  have "inline_styles h opts code m p s =
      (if \<not> SUPPORTED_FILES_RE p then s1
       else snd (import_styles h opts m ?r [] (findStaticImports h code) (n, s1)))"
    using g unfolding s0_def ids_def by (simp add: inline_styles_def Let_def)
  with s1 show ?thesis by simp
qed

lemma keys_transform_server:
  "distinct (map fst (cssMap s)) \<Longrightarrow> distinct (map fst (cssMap (transform_server h opts code m s)))"
  by (simp add: transform_server_def Let_def keys_inline_styles split: prod.split)

lemma cssMap_global_styles [simp]:
  "cssMap (snd (global_styles h m fs (p, s))) = cssMap s"
  by (induction fs arbitrary: p s) (simp_all split: option.split)

lemma cssMap_transform_client: "cssMap (snd (transform_client h opts code m s)) = cssMap s"
proof -
  let ?s0 = "s\<lparr>clientCSSMap := ensure_set m (clientCSSMap s)\<rparr>"
  obtain p s1 where g: "global_styles h m (globalCSS opts) ([], ?s0) = (p, s1)"
    by (cases "global_styles h m (globalCSS opts) ([], ?s0)")
  then have "cssMap s1 = cssMap s"
    using cssMap_global_styles [of h m "globalCSS opts" "[]" ?s0] by simp
  with g show ?thesis
    by (auto simp: transform_client_def Let_def)
qed

lemma keys_render_module [simp]:
  "map fst (cssMap (render_module h opts ch e m s)) = map fst (cssMap s)"
proof -
  have "map fst (AList.map_entry k g xs) = map fst xs" for k g and xs :: "(string \<times> style_record) list"
    by (induction xs) auto
  then show ?thesis by (simp add: render_module_def Let_def split: option.split)
qed

lemma keys_renderChunk: "map fst (cssMap (renderChunk h opts ch s)) = map fst (cssMap s)"
proof -
  have "map fst (cssMap (fold (render_module h opts ch e) ms s0)) = map fst (cssMap s0)" for e ms s0
    by (induction ms arbitrary: s0) simp_all
  then show ?thesis by (simp add: renderChunk_def Let_def)
qed

lemma cssMap_emit_aggregates [simp]:
  "cssMap (snd (emit_aggregates h afn rs (em, s))) = cssMap s"
  by (induction h afn rs "(em, s)" arbitrary: em s rule: emit_aggregates.induct)
    (simp_all add: emitFile_def Let_def)

lemma cssMap_generateBundle: "cssMap (generateBundle h opts afn s) = cssMap s"
proof -
  obtain em s1 where g: "emit_aggregates h afn (cssMap s) ([], s) = (em, s1)"
    by (cases "emit_aggregates h afn (cssMap s) ([], s)")
  then have "cssMap s1 = cssMap s"
    using cssMap_emit_aggregates [of h afn "cssMap s" "[]" s] by simp
  with g show ?thesis
    by (simp add: generateBundle_def Let_def emitFile_def)
qed

lemma keys_step:
  "distinct (map fst (cssMap s)) \<Longrightarrow> distinct (map fst (cssMap (step h opts ev s)))"
  by (cases ev)
    (simp_all add: transform_def keys_transform_server cssMap_transform_client keys_renderChunk
      cssMap_generateBundle)

lemma cssMap_keys_distinct:
  "distinct (map fst (cssMap (run h opts evs (SSRStylesPlugin opts graph inlined))))"
proof -
  have "distinct (map fst (cssMap s)) \<Longrightarrow> distinct (map fst (cssMap (run h opts evs s)))" for s
    unfolding run_def by (induction evs arbitrary: s) (simp_all add: keys_step)
  then show ?thesis by (simp add: SSRStylesPlugin_def)
qed

section \<open>What generateBundle emits\<close>

lemma update_fresh_key: "k \<notin> fst ` set em \<Longrightarrow> AList.update k v em = em @ [(k, v)]"
  by (induction em) auto

lemma zip_upt_Cons: "zip (k # ks) [n ..< Suc (n + l)] = (k, n) # zip ks [Suc n ..< Suc (n + l)]"
  by (simp add: upt_conv_Cons del: upt_Suc)

lemma emit_aggregates_result:
  assumes "distinct (map fst rs)" and "fst ` set em \<inter> fst ` set rs = {}"
  shows "emit_aggregates h afn rs (em, s) =
     (em @ zip (map fst (filter (\<lambda>(k, r). files r \<noteq> [] \<and> inBundle r = Some True) rs))
            [length (emittedFiles s) ..<
             length (emittedFiles s) +
               length (filter (\<lambda>(k, r). files r \<noteq> [] \<and> inBundle r = Some True) rs)],
      s\<lparr>emittedFiles := emittedFiles s @
           map (\<lambda>(k, r). aggregate_module h afn k (files r))
             (filter (\<lambda>(k, r). files r \<noteq> [] \<and> inBundle r = Some True) rs)\<rparr>)"
  using assms
proof (induction rs arbitrary: em s)
  case Nil
  show ?case by simp
next
  case (Cons kr rs)
  obtain k r where kr: "kr = (k, r)" by (cases kr)
  have d: "distinct (map fst rs)" and fresh: "k \<notin> fst ` set em" and later: "k \<notin> fst ` set rs"
    using Cons.prems kr by auto
  show ?case
  proof (cases "files r = [] \<or> inBundle r \<noteq> Some True")
    case True
    have "fst ` set em \<inter> fst ` set rs = {}" using Cons.prems by auto
    from Cons.IH [OF d this] True kr show ?thesis by auto
  next
    case False
    let ?s1 = "s\<lparr>emittedFiles := emittedFiles s @ [aggregate_module h afn k (files r)]\<rparr>"
    let ?em1 = "em @ [(k, length (emittedFiles s))]"
    have "fst ` set ?em1 \<inter> fst ` set rs = {}" using Cons.prems later by auto
    from Cons.IH [OF d this, of ?s1] False kr fresh show ?thesis
      by (simp add: emitFile_def update_fresh_key zip_upt_Cons del: upt_Suc)
  qed
qed

lemma generateBundle_server:
  assumes "build opts = ServerBuild" and "distinct (map fst (cssMap s))"
  shows "generateBundle h opts afn s =
     s\<lparr>chunksWithInlinedCSS := fold set_add (map fst (inlined_records s)) (chunksWithInlinedCSS s),
       emittedFiles := emittedFiles s @
         map (\<lambda>(k, r). aggregate_module h afn k (files r)) (inlined_records s) @
         [DirectoryModule (map (\<lambda>(k, v). (k, getFileName h v))
            (zip (map fst (inlined_records s))
               [length (emittedFiles s) ..< length (emittedFiles s) + length (inlined_records s)]))]\<rparr>"
proof -
  have "fst ` set ([] :: (string \<times> ref) list) \<inter> fst ` set (cssMap s) = {}" by simp
  from emit_aggregates_result [OF assms(2) this, of h afn s] assms(1)
  show ?thesis
    by (simp add: generateBundle_def Let_def emitFile_def inlined_records_def)
qed

lemma inlined_records_key:
  assumes "distinct (map fst (cssMap s))"
  shows "k \<in> set (map fst (inlined_records s)) \<longleftrightarrow>
         (\<exists>r. map_of (cssMap s) k = Some r \<and> files r \<noteq> [] \<and> inBundle r = Some True)"
  using assms by (auto simp: inlined_records_def image_iff)

text \<open>
  C2. In server mode \<open>generateBundle\<close> emits, after what was emitted before, one aggregate
  for each record of \<open>cssMap\<close> that has files and whose \<open>inBundle\<close> is true, in the order of
  \<open>cssMap\<close>, and then the directory module, whose keys are the keys of those records, each
  with the output path of its aggregate. A key is among them if and only if its record has
  a non-empty \<open>files\<close> and \<open>inBundle\<close> true; the other records give no aggregate and no
  entry, and no warning is emitted.
\<close>

theorem generateBundle_emits:
  assumes "build opts = ServerBuild" and "distinct (map fst (cssMap s))"
  shows "emittedFiles (generateBundle h opts afn s) =
           emittedFiles s @
           map (\<lambda>(k, r). aggregate_module h afn k (files r)) (inlined_records s) @
           [DirectoryModule (map (\<lambda>(k, v). (k, getFileName h v))
              (zip (map fst (inlined_records s))
                 [length (emittedFiles s) ..< length (emittedFiles s) + length (inlined_records s)]))] \<and>
         (k \<in> set (map fst (inlined_records s)) \<longleftrightarrow>
            (\<exists>r. map_of (cssMap s) k = Some r \<and> files r \<noteq> [] \<and> inBundle r = Some True)) \<and>
         warnings (generateBundle h opts afn s) = warnings s"
  using inlined_records_key [OF assms(2)]
  by (simp add: generateBundle_server [OF assms])

theorem generateBundle_emits_witness:
  "emittedFiles (generateBundle example_host (example_options ServerBuild (Flag True))
      (AssetNamePattern ''assets/[name]'')
      (run example_host (example_options ServerBuild (Flag True))
         [Transform [] ''/src/a.vue'', Transform [] ''/src/b.vue'',
          RenderChunk \<lparr>facadeModuleId = Some ''/src/entry.js'',
                       moduleIds = [''/src/entry.js'', ''/src/a.vue'']\<rparr>]
         (SSRStylesPlugin (example_options ServerBuild (Flag True)) example_graph []))) =
     [StyleChunk ''a'' 1 ''/src/a.css?inline&used'',
      StyleChunk ''b'' 1 ''/src/b.css?inline&used'',
      Aggregate ''a'' [''_nuxt/s.mjs''],
      DirectoryModule [(''a.vue'', ''_nuxt/sss.mjs'')]] \<and>
   ''b.vue'' \<notin> set (map fst (inlined_records
      (run example_host (example_options ServerBuild (Flag True))
         [Transform [] ''/src/a.vue'', Transform [] ''/src/b.vue'',
          RenderChunk \<lparr>facadeModuleId = Some ''/src/entry.js'',
                       moduleIds = [''/src/entry.js'', ''/src/a.vue'']\<rparr>]
         (SSRStylesPlugin (example_options ServerBuild (Flag True)) example_graph []))))"
proof -
  let ?opts = "example_options ServerBuild (Flag True)"
  let ?afn = "AssetNamePattern ''assets/[name]''"
  let ?s = "run example_host ?opts
         [Transform [] ''/src/a.vue'', Transform [] ''/src/b.vue'',
          RenderChunk \<lparr>facadeModuleId = Some ''/src/entry.js'',
                       moduleIds = [''/src/entry.js'', ''/src/a.vue'']\<rparr>]
         (SSRStylesPlugin ?opts example_graph [])"
  have mode: "build ?opts = ServerBuild"
    by (simp add: example_options_def)
  have keys: "distinct (map fst (cssMap ?s))"
    by code_simp
  have recs: "inlined_records ?s = [(''a.vue'', \<lparr>files = [0], inBundle = Some True\<rparr>)]"
    by code_simp
  have old: "emittedFiles ?s =
      [StyleChunk ''a'' 1 ''/src/a.css?inline&used'', StyleChunk ''b'' 1 ''/src/b.css?inline&used'']"
    by code_simp
  have agg: "aggregate_module example_host ?afn ''a.vue'' [0] = Aggregate ''a'' [''_nuxt/s.mjs'']"
    by code_simp
  have path: "getFileName example_host (Suc (Suc 0)) = ''_nuxt/sss.mjs''"
    by code_simp
  have absent: "map_of (cssMap ?s) ''b.vue'' = Some \<lparr>files = [1], inBundle = None\<rparr>"
    by code_simp
  from generateBundle_emits [OF mode keys, of example_host ?afn "''b.vue''"]
  have "emittedFiles (generateBundle example_host ?opts ?afn ?s) =
          emittedFiles ?s @
          map (\<lambda>(k, r). aggregate_module example_host ?afn k (files r)) (inlined_records ?s) @
          [DirectoryModule (map (\<lambda>(k, v). (k, getFileName example_host v))
             (zip (map fst (inlined_records ?s))
                [length (emittedFiles ?s) ..< length (emittedFiles ?s) + length (inlined_records ?s)]))]"
    and "''b.vue'' \<in> set (map fst (inlined_records ?s)) \<longleftrightarrow>
           (\<exists>r. map_of (cssMap ?s) ''b.vue'' = Some r \<and> files r \<noteq> [] \<and> inBundle r = Some True)"
    by blast+
  then show ?thesis
    unfolding recs old absent by (simp add: agg path)
qed

section \<open>The entries of the directory module\<close>

lemma emitted_directory_generateBundle:
  assumes "build opts = ServerBuild" and "distinct (map fst (cssMap s))"
  shows "emitted_directory (generateBundle h opts afn s) =
           map (\<lambda>(k, v). (k, getFileName h v))
             (zip (map fst (inlined_records s))
                [length (emittedFiles s) ..< length (emittedFiles s) + length (inlined_records s)])"
  by (simp add: generateBundle_server [OF assms] emitted_directory_def)

text \<open>
  C9 (as amended). The directory module emitted in server mode has no entry, hence no
  loader, for a consuming-module id whose style record has no files: looking the id up
  yields nothing. Every entry it has belongs to a record with at least one file whose
  \<open>inBundle\<close> is true, and the path its loader imports is the output path of the aggregate
  emitted for that record, whose list has one style for each recorded file, in order.
\<close>

theorem directory_entry_has_styles:
  assumes "build opts = ServerBuild" and "distinct (map fst (cssMap s))"
  shows "(map_of (cssMap s) k = Some r0 \<and> files r0 = [] \<longrightarrow>
            map_of (emitted_directory (generateBundle h opts afn s)) k = None) \<and>
         (map_of (emitted_directory (generateBundle h opts afn s)) k = Some p \<longrightarrow>
            (\<exists>r ref. map_of (cssMap s) k = Some r \<and> files r \<noteq> [] \<and> inBundle r = Some True \<and>
               p = getFileName h ref \<and> ref < length (emittedFiles (generateBundle h opts afn s)) \<and>
               emittedFiles (generateBundle h opts afn s) ! ref = aggregate_module h afn k (files r)))"
proof (intro conjI impI)
  let ?el = "inlined_records s"
  let ?n = "length (emittedFiles s)"
  let ?refs = "zip (map fst ?el) [?n ..< ?n + length ?el]"
  let ?dir = "emitted_directory (generateBundle h opts afn s)"
  have dir: "?dir = map (\<lambda>(k, v). (k, getFileName h v)) ?refs"
    by (rule emitted_directory_generateBundle [OF assms])
  have keys: "fst ` set ?dir \<subseteq> set (map fst ?el)"
    unfolding dir by (auto dest: set_zip_leftD)
  {
    assume a: "map_of (cssMap s) k = Some r0 \<and> files r0 = []"
    then have "k \<notin> set (map fst ?el)"
      using inlined_records_key [OF assms(2), of k] by auto
    with keys have "k \<notin> fst ` set ?dir" by blast
    then show "map_of ?dir k = None"
      by (simp add: map_of_eq_None_iff)
  }
  {
    assume "map_of ?dir k = Some p"
    then have "(k, p) \<in> set ?dir" by (rule map_of_SomeD)
    then obtain v where v: "(k, v) \<in> set ?refs" "p = getFileName h v"
      unfolding dir by auto
    then obtain i where i: "i < length ?el" "map fst ?el ! i = k" "[?n ..< ?n + length ?el] ! i = v"
      by (auto simp: in_set_zip)
    then have ref: "v = ?n + i" by simp
    obtain r where r: "?el ! i = (k, r)"
      using i(1,2) by (cases "?el ! i") simp
    have mem: "(k, r) \<in> set ?el"
      using i(1) r by (metis nth_mem)
    then have inl: "(k, r) \<in> set (cssMap s)" "files r \<noteq> []" "inBundle r = Some True"
      by (auto simp: inlined_records_def)
    have look: "map_of (cssMap s) k = Some r"
      using assms(2) inl(1) by (rule map_of_is_SomeI)
    have out: "emittedFiles (generateBundle h opts afn s) =
        emittedFiles s @ map (\<lambda>(k, r). aggregate_module h afn k (files r)) ?el @
        [DirectoryModule (map (\<lambda>(k, v). (k, getFileName h v)) ?refs)]"
      by (simp add: generateBundle_server [OF assms])
    have "emittedFiles (generateBundle h opts afn s) ! (?n + i) = aggregate_module h afn k (files r)"
      unfolding out using i(1) r by (simp add: nth_append)
    moreover have "?n + i < length (emittedFiles (generateBundle h opts afn s))"
      unfolding out using i(1) by simp
    ultimately show "\<exists>r ref. map_of (cssMap s) k = Some r \<and> files r \<noteq> [] \<and> inBundle r = Some True \<and>
               p = getFileName h ref \<and> ref < length (emittedFiles (generateBundle h opts afn s)) \<and>
               emittedFiles (generateBundle h opts afn s) ! ref = aggregate_module h afn k (files r)"
      using look inl(2,3) v(2) ref by blast
  }
qed

theorem directory_entry_has_styles_witness:
  "map_of (emitted_directory (generateBundle example_host (example_options ServerBuild (Flag True))
      (AssetNamePattern ''assets/[name]'') example_rendered)) ''c.vue'' = None \<and>
   (\<exists>r ref. map_of (cssMap example_rendered) ''a.vue'' = Some r \<and> files r \<noteq> [] \<and>
      ''_nuxt/ss.mjs'' = getFileName example_host ref \<and>
      emittedFiles (generateBundle example_host (example_options ServerBuild (Flag True))
        (AssetNamePattern ''assets/[name]'') example_rendered) ! ref =
      aggregate_module example_host (AssetNamePattern ''assets/[name]'') ''a.vue'' (files r))"
proof -
  let ?opts = "example_options ServerBuild (Flag True)"
  let ?afn = "AssetNamePattern ''assets/[name]''"
  have mode: "build ?opts = ServerBuild"
    by (simp add: example_options_def)
  have keys: "distinct (map fst (cssMap example_rendered))"
    by code_simp
  have empty: "map_of (cssMap example_rendered) ''c.vue'' = Some \<lparr>files = [], inBundle = Some True\<rparr>"
    by code_simp
  have entry: "map_of (emitted_directory (generateBundle example_host ?opts ?afn example_rendered))
                 ''a.vue'' = Some ''_nuxt/ss.mjs''"
    by code_simp
  from directory_entry_has_styles [OF mode keys, of "''c.vue''" "\<lparr>files = [], inBundle = Some True\<rparr>"
      example_host ?afn] empty
  have "map_of (emitted_directory (generateBundle example_host ?opts ?afn example_rendered)) ''c.vue'' = None"
    by simp
  moreover
  from directory_entry_has_styles [OF mode keys, of "''a.vue''" _ example_host ?afn "''_nuxt/ss.mjs''"] entry
  have "\<exists>r ref. map_of (cssMap example_rendered) ''a.vue'' = Some r \<and> files r \<noteq> [] \<and>
      ''_nuxt/ss.mjs'' = getFileName example_host ref \<and>
      emittedFiles (generateBundle example_host ?opts ?afn example_rendered) ! ref =
      aggregate_module example_host ?afn ''a.vue'' (files r)"
    by blast
  ultimately show ?thesis by blast
qed

text \<open>
  C9 as stated fails: \<open>c.vue\<close> has a style record without files (its style sheet did not
  resolve) and is in the bundle, and the directory module has no loader for it.
\<close>

theorem no_loader_without_styles:
  "map_of (cssMap example_rendered) ''c.vue'' = Some \<lparr>files = [], inBundle = Some True\<rparr> \<and>
   map_of (emitted_directory (generateBundle example_host (example_options ServerBuild (Flag True))
      (AssetNamePattern ''assets/[name]'') example_rendered)) ''c.vue'' = None"
  by code_simp

section \<open>The shouldInline option\<close>

lemma graph_styles_srcDir:
  "srcDir o1 = srcDir o2 \<Longrightarrow>
   graph_styles h o1 m r e fs (n, s) = graph_styles h o2 m r e fs (n, s)"
  by (induction fs arbitrary: n s)
    (simp_all add: emitFile_def record_style_def relativeToSrcDir_def)

lemma import_styles_srcDir:
  "srcDir o1 = srcDir o2 \<Longrightarrow>
   import_styles h o1 m r e fs (n, s) = import_styles h o2 m r e fs (n, s)"
  by (induction fs arbitrary: n s)
    (simp_all add: emitFile_def record_style_def relativeToSrcDir_def split: option.split)

lemma inline_styles_srcDir:
  assumes "srcDir o1 = srcDir o2"
  shows "inline_styles h o1 code m p s = inline_styles h o2 code m p s"
proof -
  have r: "relativeToSrcDir h o1 m = relativeToSrcDir h o2 m"
    using assms by (simp add: relativeToSrcDir_def)
  show ?thesis
    unfolding inline_styles_def Let_def r
    by (simp add: graph_styles_srcDir [OF assms] import_styles_srcDir [OF assms] split: prod.split)
qed

lemma transform_server_inlining:
  assumes "srcDir o1 = srcDir o2"
    and "inlining_refused (shouldInline o1) (Some m) = inlining_refused (shouldInline o2) (Some m)"
  shows "transform_server h o1 code m s = transform_server h o2 code m s"
  using assms(2)
  by (simp add: transform_server_def Let_def inline_styles_srcDir [OF assms(1)] split: prod.split)

lemma renderChunk_inlining:
  "renderChunk h (opts\<lparr>shouldInline := x\<rparr>) ch s = renderChunk h (opts\<lparr>shouldInline := y\<rparr>) ch s"
proof -
  have rel: "relativeToSrcDir h (opts\<lparr>shouldInline := z\<rparr>) p = relativeToSrcDir h opts p" for z p
    by (simp add: relativeToSrcDir_def)
  have "render_module h (opts\<lparr>shouldInline := x\<rparr>) ch e = render_module h (opts\<lparr>shouldInline := y\<rparr>) ch e"
    for e
    unfolding render_module_def rel by simp
  then show ?thesis by (simp add: renderChunk_def Let_def)
qed

lemma generateBundle_inlining:
  "generateBundle h (opts\<lparr>shouldInline := x\<rparr>) afn s = generateBundle h (opts\<lparr>shouldInline := y\<rparr>) afn s"
  by (simp add: generateBundle_def)

text \<open>
  C10 (as amended). With \<open>shouldInline\<close> left undefined, \<open>resolveId\<close> answers every request
  as it does with \<open>shouldInline\<close> true: whatever the importer, a target that is
  \<open>#build/css\<close>, ends in \<open>.vue\<close> or is a CSS file, and that resolves, is returned with
  \<open>moduleSideEffects\<close> false. The server pass of \<open>transform\<close> also does what it does with
  \<open>shouldInline\<close> true: a module that is in the graph or an island, and carries no \<open>macro\<close>
  or \<open>nuxt_component\<close> query, has its styles inlined. \<open>renderChunk\<close> and \<open>generateBundle\<close>
  do not read the option. The client pass of \<open>transform\<close> does what it does with
  \<open>shouldInline\<close> false: it leaves the code and the state as they are.
\<close>

theorem undefined_shouldInline_by_hook:
  "resolveId h (opts\<lparr>shouldInline := Undefined\<rparr>) modId importer =
     resolveId h (opts\<lparr>shouldInline := Flag True\<rparr>) modId importer \<and>
   ((modId = ''#build/css'' \<or> endsWith modId ''.vue'' \<or> isCSS h modId) \<and>
    resolveSkipSelf h modId importer = Some res \<longrightarrow>
      resolveId h (opts\<lparr>shouldInline := Undefined\<rparr>) modId importer =
        Some (res\<lparr>moduleSideEffects := SideEffects False\<rparr>)) \<and>
   (build opts = ServerBuild \<longrightarrow>
      transform h (opts\<lparr>shouldInline := Undefined\<rparr>) code m s =
        transform h (opts\<lparr>shouldInline := Flag True\<rparr>) code m s) \<and>
   (build opts = ServerBuild \<and>
    (has_key m (clientCSSMap s) \<or> list_ex (\<lambda>c. filePath c = fst (parseId h m)) (islands s)) \<and>
    \<not> truthy (parseQuery h (snd (parseId h m)) ''macro'') \<and>
    \<not> truthy (parseQuery h (snd (parseId h m)) ''nuxt_component'') \<longrightarrow>
      transform h (opts\<lparr>shouldInline := Undefined\<rparr>) code m s =
        (None, inline_styles h opts code m (fst (parseId h m)) s)) \<and>
   renderChunk h (opts\<lparr>shouldInline := Undefined\<rparr>) ch s =
     renderChunk h (opts\<lparr>shouldInline := Flag True\<rparr>) ch s \<and>
   generateBundle h (opts\<lparr>shouldInline := Undefined\<rparr>) afn s =
     generateBundle h (opts\<lparr>shouldInline := Flag True\<rparr>) afn s \<and>
   (build opts = ClientBuild \<longrightarrow>
      transform h (opts\<lparr>shouldInline := Undefined\<rparr>) code m s = (None, s) \<and>
      transform h (opts\<lparr>shouldInline := Flag False\<rparr>) code m s = (None, s))"
proof (intro conjI impI)
  show "resolveId h (opts\<lparr>shouldInline := Undefined\<rparr>) modId importer =
     resolveId h (opts\<lparr>shouldInline := Flag True\<rparr>) modId importer"
    by (simp add: resolveId_def)
next
  assume "(modId = ''#build/css'' \<or> endsWith modId ''.vue'' \<or> isCSS h modId) \<and>
    resolveSkipSelf h modId importer = Some res"
  then show "resolveId h (opts\<lparr>shouldInline := Undefined\<rparr>) modId importer =
        Some (res\<lparr>moduleSideEffects := SideEffects False\<rparr>)"
    by (auto simp: resolveId_def)
next
  assume "build opts = ServerBuild"
  then show "transform h (opts\<lparr>shouldInline := Undefined\<rparr>) code m s =
        transform h (opts\<lparr>shouldInline := Flag True\<rparr>) code m s"
    by (simp add: transform_def transform_server_inlining)
next
  assume a: "build opts = ServerBuild \<and>
    (has_key m (clientCSSMap s) \<or> list_ex (\<lambda>c. filePath c = fst (parseId h m)) (islands s)) \<and>
    \<not> truthy (parseQuery h (snd (parseId h m)) ''macro'') \<and>
    \<not> truthy (parseQuery h (snd (parseId h m)) ''nuxt_component'')"
  have "inline_styles h (opts\<lparr>shouldInline := Undefined\<rparr>) code m (fst (parseId h m)) s =
        inline_styles h opts code m (fst (parseId h m)) s"
    by (rule inline_styles_srcDir) simp
  with a show "transform h (opts\<lparr>shouldInline := Undefined\<rparr>) code m s =
        (None, inline_styles h opts code m (fst (parseId h m)) s)"
    by (auto simp: transform_def transform_server_def Let_def split: prod.split)
next
  show "renderChunk h (opts\<lparr>shouldInline := Undefined\<rparr>) ch s =
     renderChunk h (opts\<lparr>shouldInline := Flag True\<rparr>) ch s"
    by (rule renderChunk_inlining)
next
  show "generateBundle h (opts\<lparr>shouldInline := Undefined\<rparr>) afn s =
     generateBundle h (opts\<lparr>shouldInline := Flag True\<rparr>) afn s"
    by (rule generateBundle_inlining)
next
  assume "build opts = ClientBuild"
  then show "transform h (opts\<lparr>shouldInline := Undefined\<rparr>) code m s = (None, s)"
    by (simp add: transform_def transform_client_def)
next
  assume "build opts = ClientBuild"
  then show "transform h (opts\<lparr>shouldInline := Flag False\<rparr>) code m s = (None, s)"
    by (simp add: transform_def transform_client_def)
qed

theorem undefined_shouldInline_by_hook_witness:
  "resolveId example_host (example_options ServerBuild Undefined) ''/src/a.css'' (Some ''/src/a.vue'') =
     Some \<lparr>rid = ''/src/a.css'', moduleSideEffects = SideEffects False\<rparr> \<and>
   cssMap (snd (transform example_host (example_options ServerBuild Undefined) [] ''/src/a.vue''
      (SSRStylesPlugin (example_options ServerBuild Undefined) example_graph []))) =
     [(''a.vue'', \<lparr>files = [0], inBundle = None\<rparr>)] \<and>
   transform example_host (example_options ClientBuild Undefined) [] ''/src/entry.js''
      (SSRStylesPlugin (example_options ClientBuild Undefined) [] []) =
     (None, SSRStylesPlugin (example_options ClientBuild Undefined) [] [])"
proof -
  let ?opts = "example_options ServerBuild Undefined"
  let ?s = "SSRStylesPlugin ?opts example_graph []"
  let ?copts = "example_options ClientBuild Undefined"
  let ?cs = "SSRStylesPlugin ?copts [] []"
  have same: "?opts\<lparr>shouldInline := Undefined\<rparr> = ?opts" "?copts\<lparr>shouldInline := Undefined\<rparr> = ?copts"
    by (simp_all add: example_options_def)
  have target: "(''/src/a.css'' = ''#build/css'' \<or> endsWith ''/src/a.css'' ''.vue'' \<or>
      isCSS example_host ''/src/a.css'') \<and>
    resolveSkipSelf example_host ''/src/a.css'' (Some ''/src/a.vue'') =
      Some \<lparr>rid = ''/src/a.css'', moduleSideEffects = SideEffects True\<rparr>"
    by code_simp
  have guards: "build ?opts = ServerBuild \<and>
    (has_key ''/src/a.vue'' (clientCSSMap ?s) \<or>
     list_ex (\<lambda>c. filePath c = fst (parseId example_host ''/src/a.vue'')) (islands ?s)) \<and>
    \<not> truthy (parseQuery example_host (snd (parseId example_host ''/src/a.vue'')) ''macro'') \<and>
    \<not> truthy (parseQuery example_host (snd (parseId example_host ''/src/a.vue'')) ''nuxt_component'')"
    by code_simp
  have client: "build ?copts = ClientBuild"
    by (simp add: example_options_def)
  have styles: "cssMap (inline_styles example_host ?opts [] ''/src/a.vue''
      (fst (parseId example_host ''/src/a.vue'')) ?s) = [(''a.vue'', \<lparr>files = [0], inBundle = None\<rparr>)]"
    by code_simp
  note inst = undefined_shouldInline_by_hook [of example_host ?opts "''/src/a.css''" "Some ''/src/a.vue''"
      "\<lparr>rid = ''/src/a.css'', moduleSideEffects = SideEffects True\<rparr>" "[]" "''/src/a.vue''" ?s]
  have r: "resolveId example_host (?opts\<lparr>shouldInline := Undefined\<rparr>) ''/src/a.css'' (Some ''/src/a.vue'') =
      Some (\<lparr>rid = ''/src/a.css'', moduleSideEffects = SideEffects True\<rparr>
              \<lparr>moduleSideEffects := SideEffects False\<rparr>)"
    using inst target by blast
  have t: "transform example_host (?opts\<lparr>shouldInline := Undefined\<rparr>) [] ''/src/a.vue'' ?s =
      (None, inline_styles example_host ?opts [] ''/src/a.vue''
               (fst (parseId example_host ''/src/a.vue'')) ?s)"
    using inst guards by blast
  have c: "transform example_host (?copts\<lparr>shouldInline := Undefined\<rparr>) [] ''/src/entry.js'' ?cs = (None, ?cs)"
    using undefined_shouldInline_by_hook [of example_host ?copts _ _ _ "[]" "''/src/entry.js''" ?cs] client
    by blast
  from r t c styles show ?thesis
    unfolding same by simp
qed

text \<open>
  C10 as stated fails: with \<open>shouldInline\<close> undefined the plugin does not behave in every
  hook as it does with \<open>shouldInline\<close> true. In the client pass the transform of the entry
  module does nothing when the option is undefined; when it is true it records the global
  style sheet that resolves in the graph and prepends an import of the one that does not,
  with a warning.
\<close>

theorem undefined_differs_from_true_in_client_pass:
  "transform example_host (example_options ClientBuild Undefined) [] ''/src/entry.js''
      (SSRStylesPlugin (example_options ClientBuild Undefined) [] []) =
     (None, SSRStylesPlugin (example_options ClientBuild Undefined) [] []) \<and>
   transform example_host (example_options ClientBuild (Flag True)) [] ''/src/entry.js''
      (SSRStylesPlugin (example_options ClientBuild (Flag True)) [] []) =
     (Some [''/src/missing.css''],
      (SSRStylesPlugin (example_options ClientBuild (Flag True)) [] [])
        \<lparr>warnCache := [''/src/missing.css''],
         clientCSSMap := [(''/src/entry.js'', [''/src/a.css''])],
         warnings := [(''/src/missing.css'', ''/src/missing.css'')]\<rparr>)"
  by code_simp

section \<open>Islands and the inlining guard of the server pass\<close>

lemma style_inlined_warn_once [simp]: "style_inlined (warn_once k n s) r x = style_inlined s r x"
  by (auto simp: style_inlined_def warn_once_def split: option.splits)

lemma style_inlined_kept:
  assumes "style_inlined s r x"
  shows "style_inlined (record_style h opts r' f (length (emittedFiles s))
           (s\<lparr>emittedFiles := emittedFiles s @ [c]\<rparr>)) r x"
proof -
  from assms obtain rec ref where rec: "map_of (cssMap s) r = Some rec" "ref \<in> set (files rec)"
    "ref < length (emittedFiles s)" "emittedFiles s ! ref = x"
    by (auto simp: style_inlined_def list_ex_iff split: option.splits)
  then have "(emittedFiles s @ [c]) ! ref = x" "ref < length (emittedFiles s @ [c])"
    by (simp_all add: nth_append)
  with rec(1,2) show ?thesis
    by (auto simp: style_inlined_def record_style_def map_of_map_entry list_ex_iff)
qed

lemma style_inlined_new:
  assumes "has_key r (cssMap s)"
  shows "style_inlined (record_style h opts r f (length (emittedFiles s))
           (s\<lparr>emittedFiles := emittedFiles s @ [c]\<rparr>)) r c"
proof -
  from assms obtain rec where "map_of (cssMap s) r = Some rec"
    by (auto simp: has_key_def)
  then show ?thesis
    by (auto simp: style_inlined_def record_style_def map_of_map_entry list_ex_iff)
qed

lemma has_key_record_style [simp]:
  "has_key r (cssMap (record_style h opts r' f ref s)) = has_key r (cssMap s)"
  by (auto simp: has_key_def record_style_def map_of_map_entry split: option.splits)

lemma style_inlined_graph_styles:
  "style_inlined s r x \<Longrightarrow> style_inlined (snd (graph_styles h opts m r' e fs (n, s))) r x"
  by (induction fs arbitrary: n s) (simp_all add: emitFile_def style_inlined_kept)

lemma style_inlined_import_styles:
  "style_inlined s r x \<Longrightarrow> style_inlined (snd (import_styles h opts m r' e fs (n, s))) r x"
  by (induction fs arbitrary: n s)
    (simp_all add: emitFile_def style_inlined_kept split: option.split)

lemma has_key_graph_styles:
  "has_key r (cssMap (snd (graph_styles h opts m r' e fs (n, s)))) = has_key r (cssMap s)"
  by (induction fs arbitrary: n s) (simp_all add: emitFile_def)

lemma graph_styles_inlines:
  assumes "f \<in> set fs" and "has_key r (cssMap s)"
    and "resolve_either h f m \<noteq> None"
    and "resolve_either h (f @ ''?inline&used'') m \<noteq> None"
  shows "\<exists>c. style_inlined (snd (graph_styles h opts m r [] fs (n, s))) r
           (StyleChunk (filename (baseFileName h) m) c (f @ ''?inline&used''))"
  using assms(1,2)
proof (induction fs arbitrary: n s)
  case Nil
  then show ?case by simp
next
  case (Cons g fs)
  show ?case
  proof (cases "g = f")
    case True
    let ?c = "StyleChunk (filename (baseFileName h) m) (n + 1) (f @ ''?inline&used'')"
    let ?s1 = "record_style h opts r f (length (emittedFiles s))
                 (s\<lparr>emittedFiles := emittedFiles s @ [?c]\<rparr>)"
    have "style_inlined ?s1 r ?c"
      using Cons.prems(2) by (rule style_inlined_new)
    then have "style_inlined (snd (graph_styles h opts m r [] fs (n + 1, ?s1))) r ?c"
      by (rule style_inlined_graph_styles)
    then show ?thesis
      using True assms(3,4) by (auto simp: emitFile_def)
  next
    case False
    then have f: "f \<in> set fs" using Cons.prems by simp
    let ?c = "StyleChunk (filename (baseFileName h) m) (n + 1) (g @ ''?inline&used'')"
    let ?s1 = "record_style h opts r g (length (emittedFiles s))
                 (s\<lparr>emittedFiles := emittedFiles s @ [?c]\<rparr>)"
    have k1: "has_key r (cssMap ?s1)" and k2: "has_key r (cssMap (warn_once g g s))"
      using Cons.prems(2) by (simp_all add: warn_once_def)
    from Cons.IH [OF f k1, of "n + 1"] Cons.IH [OF f k2, of n] Cons.IH [OF f Cons.prems(2), of n]
    show ?thesis
      by (auto simp: emitFile_def)
  qed
qed

lemma import_styles_inlines:
  assumes "specifier \<in> set fs" and "has_key r (cssMap s)"
    and "parseQuery h specifier ''type'' = Some (QString ''style'') \<or> endsWith specifier ''.css''"
    and "resolve h specifier (Some m) = Some res"
    and "resolve h (rid res @ ''?inline&used'') None \<noteq> None"
  shows "\<exists>c. style_inlined (snd (import_styles h opts m r [] fs (n, s))) r
           (StyleChunk (filename (baseFileName h) m) c (rid res @ ''?inline&used''))"
  using assms(1,2)
proof (induction fs arbitrary: n s)
  case Nil
  then show ?case by simp
next
  case (Cons g fs)
  show ?case
  proof (cases "g = specifier")
    case True
    let ?c = "StyleChunk (filename (baseFileName h) m) (n + 1) (rid res @ ''?inline&used'')"
    let ?s1 = "record_style h opts r (rid res) (length (emittedFiles s))
                 (s\<lparr>emittedFiles := emittedFiles s @ [?c]\<rparr>)"
    have "style_inlined ?s1 r ?c"
      using Cons.prems(2) by (rule style_inlined_new)
    then have "style_inlined (snd (import_styles h opts m r [] fs (n + 1, ?s1))) r ?c"
      by (rule style_inlined_import_styles)
    then show ?thesis
      using True assms(3,4,5) by (auto simp: emitFile_def)
  next
    case False
    then have f: "specifier \<in> set fs" using Cons.prems by simp
    have k0: "has_key r (cssMap s)" by (rule Cons.prems(2))
    show ?thesis
    proof (cases "resolve h g (Some m)")
      case None
      with Cons.IH [OF f k0, of n] show ?thesis by simp
    next
      case (Some x)
      let ?c = "StyleChunk (filename (baseFileName h) m) (n + 1) (rid x @ ''?inline&used'')"
      let ?s1 = "record_style h opts r (rid x) (length (emittedFiles s))
                   (s\<lparr>emittedFiles := emittedFiles s @ [?c]\<rparr>)"
      have k1: "has_key r (cssMap ?s1)" and k2: "has_key r (cssMap (warn_once (rid x) g s))"
        using k0 by (simp_all add: warn_once_def)
      from Cons.IH [OF f k1, of "n + 1"] Cons.IH [OF f k2, of n] Cons.IH [OF f k0, of n] Some
      show ?thesis
        by (auto simp: emitFile_def)
    qed
  qed
qed

lemma inline_styles_steps:
  "\<exists>n s0 s1. has_key (relativeToSrcDir h opts m) (cssMap s0) \<and> clientCSSMap s0 = clientCSSMap s \<and>
     graph_styles h opts m (relativeToSrcDir h opts m) []
       (case map_of (clientCSSMap s) m of Some fs \<Rightarrow> fs | None \<Rightarrow> []) (0, s0) = (n, s1) \<and>
     inline_styles h opts code m p s =
       (if \<not> SUPPORTED_FILES_RE p then s1
        else snd (import_styles h opts m (relativeToSrcDir h opts m) []
                    (findStaticImports h code) (n, s1)))"
proof -
  let ?r = "relativeToSrcDir h opts m"
  define s0 where "s0 = s\<lparr>cssMap := (if has_key ?r (cssMap s) then cssMap s
                            else cssMap s @ [(?r, \<lparr>files = [], inBundle = None\<rparr>)])\<rparr>"
  let ?ids = "case map_of (clientCSSMap s) m of Some fs \<Rightarrow> fs | None \<Rightarrow> []"
  obtain n s1 where g: "graph_styles h opts m ?r [] ?ids (0, s0) = (n, s1)"
    by (cases "graph_styles h opts m ?r [] ?ids (0, s0)")
  have k: "has_key ?r (cssMap s0)"
    by (auto simp: s0_def has_key_def map_add_Some_iff)
  have c: "clientCSSMap s0 = clientCSSMap s"
    by (simp add: s0_def)
  have "inline_styles h opts code m p s =
      (if \<not> SUPPORTED_FILES_RE p then s1
       else snd (import_styles h opts m ?r [] (findStaticImports h code) (n, s1)))"
    using g unfolding s0_def by (simp add: inline_styles_def Let_def)
  with k c g show ?thesis by blast
qed

lemma inline_styles_graph_file:
  assumes "map_of (clientCSSMap s) m = Some ids" and "f \<in> set ids"
    and "resolve_either h f m \<noteq> None"
    and "resolve_either h (f @ ''?inline&used'') m \<noteq> None"
  shows "\<exists>c. style_inlined (inline_styles h opts code m p s) (relativeToSrcDir h opts m)
           (StyleChunk (filename (baseFileName h) m) c (f @ ''?inline&used''))"
proof -
  let ?r = "relativeToSrcDir h opts m"
  from inline_styles_steps [of h opts m s code p] assms(1)
  obtain n s0 s1 where k: "has_key ?r (cssMap s0)"
    and g: "graph_styles h opts m ?r [] ids (0, s0) = (n, s1)"
    and i: "inline_styles h opts code m p s =
      (if \<not> SUPPORTED_FILES_RE p then s1
       else snd (import_styles h opts m ?r [] (findStaticImports h code) (n, s1)))"
    by auto
  from graph_styles_inlines [OF assms(2) k assms(3,4), of opts 0] g
  obtain c where c: "style_inlined s1 ?r (StyleChunk (filename (baseFileName h) m) c (f @ ''?inline&used''))"
    by auto
  then have "style_inlined (snd (import_styles h opts m ?r [] (findStaticImports h code) (n, s1))) ?r
      (StyleChunk (filename (baseFileName h) m) c (f @ ''?inline&used''))"
    by (rule style_inlined_import_styles)
  with c i show ?thesis by auto
qed

lemma inline_styles_static_import:
  assumes "SUPPORTED_FILES_RE p" and "specifier \<in> set (findStaticImports h code)"
    and "parseQuery h specifier ''type'' = Some (QString ''style'') \<or> endsWith specifier ''.css''"
    and "resolve h specifier (Some m) = Some res"
    and "resolve h (rid res @ ''?inline&used'') None \<noteq> None"
  shows "\<exists>c. style_inlined (inline_styles h opts code m p s) (relativeToSrcDir h opts m)
           (StyleChunk (filename (baseFileName h) m) c (rid res @ ''?inline&used''))"
proof -
  let ?r = "relativeToSrcDir h opts m"
  let ?ids = "case map_of (clientCSSMap s) m of Some fs \<Rightarrow> fs | None \<Rightarrow> []"
  from inline_styles_steps [of h opts m s code p]
  obtain n s0 s1 where k: "has_key ?r (cssMap s0)"
    and g: "graph_styles h opts m ?r [] ?ids (0, s0) = (n, s1)"
    and i: "inline_styles h opts code m p s =
      (if \<not> SUPPORTED_FILES_RE p then s1
       else snd (import_styles h opts m ?r [] (findStaticImports h code) (n, s1)))"
    by auto
  have "has_key ?r (cssMap s1)"
    using has_key_graph_styles [of ?r h opts m ?r "[]" ?ids 0 s0] g k by simp
  from import_styles_inlines [OF assms(2) this assms(3,4,5), of opts n]
  show ?thesis using i assms(1) by simp
qed
text \<open>
  C5 (as amended). In the server pass, a module whose pathname is the \<open>filePath\<close> of an
  island and whose query has neither \<open>macro\<close> nor \<open>nuxt_component\<close> has its styles inlined
  whatever \<open>shouldInline\<close> is: every file the graph holds for it that resolves in both
  variants, and, when its pathname has a supported extension, every static style import of
  its code that resolves in both variants, is emitted as a style chunk whose reference is
  listed in the style record of the module. With \<open>macro\<close> or \<open>nuxt_component\<close> in its query
  the module is skipped, island or not. A module that is not an island is skipped entirely
  when \<open>shouldInline\<close> is false or a predicate that is false for its id.
\<close>

theorem island_styles_are_inlined:
  "(build opts = ServerBuild \<and> list_ex (\<lambda>c. filePath c = fst (parseId h m)) (islands s) \<and>
    \<not> truthy (parseQuery h (snd (parseId h m)) ''macro'') \<and>
    \<not> truthy (parseQuery h (snd (parseId h m)) ''nuxt_component'') \<longrightarrow>
      transform h opts code m s = (None, inline_styles h opts code m (fst (parseId h m)) s) \<and>
      (map_of (clientCSSMap s) m = Some ids \<and> f \<in> set ids \<and> resolve_either h f m \<noteq> None \<and>
       resolve_either h (f @ ''?inline&used'') m \<noteq> None \<longrightarrow>
         (\<exists>c. style_inlined (snd (transform h opts code m s)) (relativeToSrcDir h opts m)
                (StyleChunk (filename (baseFileName h) m) c (f @ ''?inline&used'')))) \<and>
      (SUPPORTED_FILES_RE (fst (parseId h m)) \<and> specifier \<in> set (findStaticImports h code) \<and>
       (parseQuery h specifier ''type'' = Some (QString ''style'') \<or> endsWith specifier ''.css'') \<and>
       resolve h specifier (Some m) = Some res \<and>
       resolve h (rid res @ ''?inline&used'') None \<noteq> None \<longrightarrow>
         (\<exists>c. style_inlined (snd (transform h opts code m s)) (relativeToSrcDir h opts m)
                (StyleChunk (filename (baseFileName h) m) c (rid res @ ''?inline&used''))))) \<and>
   (build opts = ServerBuild \<and>
    (truthy (parseQuery h (snd (parseId h m)) ''macro'') \<or>
     truthy (parseQuery h (snd (parseId h m)) ''nuxt_component'')) \<longrightarrow>
      transform h opts code m s = (None, s)) \<and>
   (build opts = ServerBuild \<and> \<not> list_ex (\<lambda>c. filePath c = fst (parseId h m)) (islands s) \<and>
    inlining_refused (shouldInline opts) (Some m) \<longrightarrow>
      transform h opts code m s = (None, s))"
proof (intro conjI impI)
  assume a: "build opts = ServerBuild \<and> list_ex (\<lambda>c. filePath c = fst (parseId h m)) (islands s) \<and>
    \<not> truthy (parseQuery h (snd (parseId h m)) ''macro'') \<and>
    \<not> truthy (parseQuery h (snd (parseId h m)) ''nuxt_component'')"
  then show t: "transform h opts code m s = (None, inline_styles h opts code m (fst (parseId h m)) s)"
    by (auto simp: transform_def transform_server_def Let_def split: prod.split)
  {
    assume "map_of (clientCSSMap s) m = Some ids \<and> f \<in> set ids \<and> resolve_either h f m \<noteq> None \<and>
       resolve_either h (f @ ''?inline&used'') m \<noteq> None"
    then show "\<exists>c. style_inlined (snd (transform h opts code m s)) (relativeToSrcDir h opts m)
                (StyleChunk (filename (baseFileName h) m) c (f @ ''?inline&used''))"
      unfolding t using inline_styles_graph_file [of s m ids f h opts code] by simp
  }
  {
    assume "SUPPORTED_FILES_RE (fst (parseId h m)) \<and> specifier \<in> set (findStaticImports h code) \<and>
       (parseQuery h specifier ''type'' = Some (QString ''style'') \<or> endsWith specifier ''.css'') \<and>
       resolve h specifier (Some m) = Some res \<and>
       resolve h (rid res @ ''?inline&used'') None \<noteq> None"
    then show "\<exists>c. style_inlined (snd (transform h opts code m s)) (relativeToSrcDir h opts m)
                (StyleChunk (filename (baseFileName h) m) c (rid res @ ''?inline&used''))"
      unfolding t
      using inline_styles_static_import [of "fst (parseId h m)" specifier h code m res opts s]
      by simp
  }
next
  assume "build opts = ServerBuild \<and>
    (truthy (parseQuery h (snd (parseId h m)) ''macro'') \<or>
     truthy (parseQuery h (snd (parseId h m)) ''nuxt_component''))"
  then show "transform h opts code m s = (None, s)"
    by (auto simp: transform_def transform_server_def Let_def split: prod.split)
next
  assume "build opts = ServerBuild \<and> \<not> list_ex (\<lambda>c. filePath c = fst (parseId h m)) (islands s) \<and>
    inlining_refused (shouldInline opts) (Some m)"
  then show "transform h opts code m s = (None, s)"
    by (auto simp: transform_def transform_server_def Let_def split: prod.split)
qed

theorem island_styles_are_inlined_witness:
  "(\<exists>c. style_inlined (snd (transform example_host (example_options ServerBuild (Flag False)) []
            ''/src/Foo.vue''
            (SSRStylesPlugin (example_options ServerBuild (Flag False)) example_graph [])))
          ''Foo.vue'' (StyleChunk ''Foo'' c ''/src/a.css?inline&used'')) \<and>
   (\<exists>c. style_inlined (snd (transform example_host (example_options ServerBuild (Flag False))
            ''import ./a.css'' ''/src/Foo.vue''
            (SSRStylesPlugin (example_options ServerBuild (Flag False)) [] [])))
          ''Foo.vue'' (StyleChunk ''Foo'' c ''/src/a.css?inline&used'')) \<and>
   snd (transform example_host (example_options ServerBuild (Flag False))
          ''import ./a.css'' ''/src/Foo.vue''
          (SSRStylesPlugin (example_options ServerBuild (Flag False)) [] [])) =
     (SSRStylesPlugin (example_options ServerBuild (Flag False)) [] [])
       \<lparr>cssMap := [(''Foo.vue'', \<lparr>files = [0], inBundle = None\<rparr>)],
        idRefMap := [(''a.css'', 0)],
        emittedFiles := [StyleChunk ''Foo'' 1 ''/src/a.css?inline&used'']\<rparr> \<and>
   transform example_host (example_options ServerBuild (Flag False)) [] ''/src/b.vue''
     (SSRStylesPlugin (example_options ServerBuild (Flag False)) example_graph []) =
     (None, SSRStylesPlugin (example_options ServerBuild (Flag False)) example_graph [])"
proof -
  let ?opts = "example_options ServerBuild (Flag False)"
  let ?s = "SSRStylesPlugin ?opts example_graph []"
  let ?e = "SSRStylesPlugin ?opts [] []"
  have island: "build ?opts = ServerBuild \<and>
      list_ex (\<lambda>c. filePath c = fst (parseId example_host ''/src/Foo.vue'')) (islands ?s) \<and>
      \<not> truthy (parseQuery example_host (snd (parseId example_host ''/src/Foo.vue'')) ''macro'') \<and>
      \<not> truthy (parseQuery example_host (snd (parseId example_host ''/src/Foo.vue'')) ''nuxt_component'')"
    by code_simp
  have island': "build ?opts = ServerBuild \<and>
      list_ex (\<lambda>c. filePath c = fst (parseId example_host ''/src/Foo.vue'')) (islands ?e) \<and>
      \<not> truthy (parseQuery example_host (snd (parseId example_host ''/src/Foo.vue'')) ''macro'') \<and>
      \<not> truthy (parseQuery example_host (snd (parseId example_host ''/src/Foo.vue'')) ''nuxt_component'')"
    by code_simp
  have style: "map_of (clientCSSMap ?s) ''/src/Foo.vue'' = Some [''/src/a.css''] \<and>
      ''/src/a.css'' \<in> set [''/src/a.css''] \<and>
      resolve_either example_host ''/src/a.css'' ''/src/Foo.vue'' \<noteq> None \<and>
      resolve_either example_host (''/src/a.css'' @ ''?inline&used'') ''/src/Foo.vue'' \<noteq> None"
    by code_simp
  have import: "SUPPORTED_FILES_RE (fst (parseId example_host ''/src/Foo.vue'')) \<and>
      ''./a.css'' \<in> set (findStaticImports example_host ''import ./a.css'') \<and>
      (parseQuery example_host ''./a.css'' ''type'' = Some (QString ''style'') \<or>
       endsWith ''./a.css'' ''.css'') \<and>
      resolve example_host ''./a.css'' (Some ''/src/Foo.vue'') =
        Some \<lparr>rid = ''/src/a.css'', moduleSideEffects = SideEffects True\<rparr> \<and>
      resolve example_host
        (rid \<lparr>rid = ''/src/a.css'', moduleSideEffects = SideEffects True\<rparr> @ ''?inline&used'') None \<noteq> None"
    by code_simp
  have name: "filename (baseFileName example_host) ''/src/Foo.vue'' = ''Foo''"
    and rel: "relativeToSrcDir example_host ?opts ''/src/Foo.vue'' = ''Foo.vue''"
    by code_simp+
  have other: "build ?opts = ServerBuild \<and>
      \<not> list_ex (\<lambda>c. filePath c = fst (parseId example_host ''/src/b.vue'')) (islands ?s) \<and>
      inlining_refused (shouldInline ?opts) (Some ''/src/b.vue'')"
    by code_simp
  have state: "snd (transform example_host ?opts ''import ./a.css'' ''/src/Foo.vue'' ?e) =
     ?e\<lparr>cssMap := [(''Foo.vue'', \<lparr>files = [0], inBundle = None\<rparr>)],
        idRefMap := [(''a.css'', 0)],
        emittedFiles := [StyleChunk ''Foo'' 1 ''/src/a.css?inline&used'']\<rparr>"
    by code_simp
  from island_styles_are_inlined [of ?opts example_host "''/src/Foo.vue''" ?s "[]"
      "[''/src/a.css'']" "''/src/a.css''"] island style
  have "\<exists>c. style_inlined (snd (transform example_host ?opts [] ''/src/Foo.vue'' ?s))
      (relativeToSrcDir example_host ?opts ''/src/Foo.vue'')
      (StyleChunk (filename (baseFileName example_host) ''/src/Foo.vue'') c
         (''/src/a.css'' @ ''?inline&used''))"
    by blast
  then have one: "\<exists>c. style_inlined (snd (transform example_host ?opts [] ''/src/Foo.vue'' ?s))
      ''Foo.vue'' (StyleChunk ''Foo'' c ''/src/a.css?inline&used'')"
    unfolding name rel by simp
  from island_styles_are_inlined [of ?opts example_host "''/src/Foo.vue''" ?e "''import ./a.css''"
      _ _ "''./a.css''" "\<lparr>rid = ''/src/a.css'', moduleSideEffects = SideEffects True\<rparr>"]
    island' import
  have "\<exists>c. style_inlined (snd (transform example_host ?opts ''import ./a.css'' ''/src/Foo.vue'' ?e))
      (relativeToSrcDir example_host ?opts ''/src/Foo.vue'')
      (StyleChunk (filename (baseFileName example_host) ''/src/Foo.vue'') c
         (rid \<lparr>rid = ''/src/a.css'', moduleSideEffects = SideEffects True\<rparr> @ ''?inline&used''))"
    by blast
  then have two: "\<exists>c. style_inlined (snd (transform example_host ?opts ''import ./a.css'' ''/src/Foo.vue'' ?e))
      ''Foo.vue'' (StyleChunk ''Foo'' c ''/src/a.css?inline&used'')"
    unfolding name rel by simp
  from island_styles_are_inlined [of ?opts example_host "''/src/b.vue''" ?s "[]"] other
  have three: "transform example_host ?opts [] ''/src/b.vue'' ?s = (None, ?s)"
    by blast
  from one two state three show ?thesis by blast
qed

text \<open>
  C5 as stated fails: the pathname of \<open>/src/Foo.vue?macro=true\<close> is the \<open>filePath\<close> of the
  island \<open>Foo\<close> and the graph holds a style sheet for it that resolves, yet the transform
  leaves the state as it is and emits nothing.
\<close>

theorem island_with_macro_query_is_skipped:
  "list_ex (\<lambda>c. filePath c = fst (parseId example_host ''/src/Foo.vue?macro=true''))
     (islands (SSRStylesPlugin (example_options ServerBuild (Flag False)) example_graph [])) \<and>
   map_of (clientCSSMap (SSRStylesPlugin (example_options ServerBuild (Flag False)) example_graph []))
     ''/src/Foo.vue?macro=true'' = Some [''/src/a.css''] \<and>
   transform example_host (example_options ServerBuild (Flag False)) [] ''/src/Foo.vue?macro=true''
     (SSRStylesPlugin (example_options ServerBuild (Flag False)) example_graph []) =
     (None, SSRStylesPlugin (example_options ServerBuild (Flag False)) example_graph [])"
  by code_simp

section \<open>A style sheet met twice in one transform\<close>

text \<open>
  C1, evaluated where it fails. The graph holds \<open>/src/a.css\<close> for \<open>/src/a.vue\<close>, and the
  code of \<open>/src/a.vue\<close> imports \<open>./a.css\<close>, which resolves to the same file: the transform
  emits two chunks for it and records both references. The same happens when the code
  imports \<open>./a.css\<close> twice and the graph holds nothing for the module. The set
  \<open>emittedIds\<close> that the transform tests is never added to.
\<close>

theorem style_met_twice_is_emitted_twice:
  "snd (transform example_host (example_options ServerBuild (Flag True)) ''import ./a.css'' ''/src/a.vue''
     (SSRStylesPlugin (example_options ServerBuild (Flag True)) [(''/src/a.vue'', [''/src/a.css''])] [])) =
     (SSRStylesPlugin (example_options ServerBuild (Flag True)) [(''/src/a.vue'', [''/src/a.css''])] [])
       \<lparr>cssMap := [(''a.vue'', \<lparr>files = [0, 1], inBundle = None\<rparr>)],
        idRefMap := [(''a.css'', 1)],
        emittedFiles := [StyleChunk ''a'' 1 ''/src/a.css?inline&used'',
                         StyleChunk ''a'' 2 ''/src/a.css?inline&used'']\<rparr> \<and>
   snd (transform example_host (example_options ServerBuild (Flag True))
     ''import ./a.css; import ./a.css'' ''/src/a.vue''
     (SSRStylesPlugin (example_options ServerBuild (Flag True)) [(''/src/a.vue'', [])] [])) =
     (SSRStylesPlugin (example_options ServerBuild (Flag True)) [(''/src/a.vue'', [])] [])
       \<lparr>cssMap := [(''a.vue'', \<lparr>files = [0, 1], inBundle = None\<rparr>)],
        idRefMap := [(''a.css'', 1)],
        emittedFiles := [StyleChunk ''a'' 1 ''/src/a.css?inline&used'',
                         StyleChunk ''a'' 2 ''/src/a.css?inline&used'']\<rparr>"
  by code_simp

end
